theory Spec2Isabelle
  imports Main "HOL-Library.Sublist" "HOL-Library.Word"
begin

section \<open>JavaScript values as the console observes them\<close>

text \<open>
  The console of \<^verbatim>\<open>public/console.js\<close> receives arbitrary JavaScript values. A value is
  a primitive or a reference to an object of the heap; objects have identity, which is what
  the \<^verbatim>\<open>WeakSet\<close> of visited objects stores.

  Strings are lists of 8-bit characters, one per UTF-16 code unit below 256. The glyphs
  of the engine that lie outside that range are written as their UTF-8 bytes; the code never
  measures them. Numbers are the integers from \<open>- 2 ^ 53\<close> to \<open>2 ^ 53 - 1\<close>, the signed
  values of a word of 54 bits: a double holds each of them exactly and JavaScript prints
  each in decimal. Fractions, \<^verbatim>\<open>NaN\<close>, the infinities and larger numbers are not values of
  the model; the engine does no arithmetic on the numbers it inspects.
\<close>

type_synonym addr = nat

datatype jsval =
    Undefined
  | Null
  | Str (the_str: string)
  | Num "54 word"
  | Bool bool
  | BigInt int
  | Symbol string
  | Ref addr

datatype error =
    Thrown jsval    \<comment> \<open>a value thrown by code of the inspected object (getter, proxy trap, toString)\<close>
  | TypeError       \<comment> \<open>raised by the language itself\<close>
  | OutOfStack      \<comment> \<open>the recursion went deeper than the call stack allows\<close>

text \<open>
  A property descriptor: a data property with its value, or an accessor property with what
  its getter does when it is called (\<open>None\<close>: there is no getter). The flag is
  \<^verbatim>\<open>enumerable\<close>.
\<close>

datatype descriptor =
    Data jsval bool
  | Accessor "(error + jsval) option" bool

fun enumerable :: "descriptor \<Rightarrow> bool" where
  "enumerable (Data v e) = e"
| "enumerable (Accessor g e) = e"

fun has_getter :: "descriptor option \<Rightarrow> bool" where
  "has_getter (Some (Accessor (Some g) e)) = True"
| "has_getter d = False"

text \<open>What \<^verbatim>\<open>typeof\<close>, \<^verbatim>\<open>instanceof\<close> and \<^verbatim>\<open>Array.isArray\<close> report of an object.\<close>

datatype objkind =
    PlainObject | ArrayObject | FunctionObject | ErrorObject | RegExpObject
  | SetLike | MapLike | WeakSetLike | WeakMapLike

text \<open>
  An object as the engine can observe it:
  \<^item> \<open>own\<close>: the own properties with their descriptors, in the order of
    \<^verbatim>\<open>Object.getOwnPropertyNames\<close>;
  \<^item> \<open>inherited\<close>: the properties a read finds on the prototype chain;
  \<^item> \<open>get_trap\<close>: the \<^verbatim>\<open>get\<close> handler when the object is a proxy, which answers every read;
  \<^item> \<open>to_str\<close>: what \<^verbatim>\<open>String(value)\<close> and a template literal make of the object (or throw):
    the conversion that asks \<^verbatim>\<open>toString\<close> first;
  \<^item> \<open>to_default\<close>: what concatenating the object to a string makes of it (or throws):
    the conversion that asks \<^verbatim>\<open>valueOf\<close> first;
  \<^item> \<open>keys_list\<close>, \<open>entries_list\<close>: what \<^verbatim>\<open>Array.from(value.keys())\<close> and
    \<^verbatim>\<open>Array.from(value.entries())\<close> give (or throw).
\<close>

record jsobj =
  kind :: objkind
  own :: "(string \<times> descriptor) list"
  inherited :: "(string \<times> descriptor) list"
  get_trap :: "(string \<Rightarrow> error + jsval) option"
  to_str :: "error + string"
  to_default :: "error + string"
  keys_list :: "error + jsval list"
  entries_list :: "error + (jsval \<times> jsval) list"

type_synonym heap = "addr \<Rightarrow> jsobj"

text \<open>
  The state of one top-level inspection: the visited set, and a ghost trace of what the
  engine did to the inspected objects (which objects \<^verbatim>\<open>recursiveInspect\<close> walked, which
  getters a read invoked), in order.
\<close>

datatype event = Walk addr | Invoke addr string

record istate =
  visited :: "addr set"
  trace :: "event list"

definition fresh :: istate where
  "fresh = \<lparr>visited = {}, trace = []\<rparr>"

subsection \<open>Conversions of the language\<close>

definition digit_char :: "nat \<Rightarrow> char" where
  "digit_char n = ''0123456789'' ! n"

fun string_of_nat :: "nat \<Rightarrow> string" where
  "string_of_nat n =
     (if n < 10 then [digit_char n] else string_of_nat (n div 10) @ [digit_char (n mod 10)])"

declare string_of_nat.simps [simp del]

definition string_of_int :: "int \<Rightarrow> string" where
  "string_of_int i = (if i < 0 then CHR ''-'' # string_of_nat (nat (- i)) else string_of_nat (nat i))"

text \<open>\<^verbatim>\<open>String(value)\<close>: the explicit conversion, which also accepts symbols.\<close>

fun js_String :: "heap \<Rightarrow> jsval \<Rightarrow> error + string" where
  "js_String h Undefined = Inr ''undefined''"
| "js_String h Null = Inr ''null''"
| "js_String h (Str s) = Inr s"
| "js_String h (Num n) = Inr (string_of_int (sint n))"
| "js_String h (Bool b) = Inr (if b then ''true'' else ''false'')"
| "js_String h (BigInt n) = Inr (string_of_int n)"
| "js_String h (Symbol d) = Inr (''Symbol('' @ d @ '')'')"
| "js_String h (Ref a) = to_str (h a)"

text \<open>
  The implicit conversions, in which a symbol raises: \<^verbatim>\<open>`${value}`\<close> in a template literal,
  and \<^verbatim>\<open>res += value\<close> or \<^verbatim>\<open>value + 'n'\<close> in a concatenation. They differ on objects.
\<close>

fun js_template_string :: "heap \<Rightarrow> jsval \<Rightarrow> error + string" where
  "js_template_string h (Symbol d) = Inl TypeError"
| "js_template_string h v = js_String h v"

fun js_concat_string :: "heap \<Rightarrow> jsval \<Rightarrow> error + string" where
  "js_concat_string h (Symbol d) = Inl TypeError"
| "js_concat_string h (Ref a) = to_default (h a)"
| "js_concat_string h v = js_String h v"

fun truthy :: "jsval \<Rightarrow> bool" where
  "truthy Undefined = False"
| "truthy Null = False"
| "truthy (Str s) = (s \<noteq> [])"
| "truthy (Num n) = (n \<noteq> 0)"
| "truthy (Bool b) = b"
| "truthy (BigInt n) = (n \<noteq> 0)"
| "truthy (Symbol d) = True"
| "truthy (Ref a) = True"

text \<open>
  A property read \<^verbatim>\<open>value[key]\<close>: the proxy trap if there is one, else the own property,
  else the inherited one, else \<^verbatim>\<open>undefined\<close>. Reading an accessor property calls its
  getter. A read on a primitive finds none of the names the engine asks for; on
  \<^verbatim>\<open>null\<close> and \<^verbatim>\<open>undefined\<close> it raises.
\<close>

fun js_get :: "heap \<Rightarrow> jsval \<Rightarrow> string \<Rightarrow> istate \<Rightarrow> error + (jsval \<times> istate)" where
  "js_get h (Ref a) key st =
     (case get_trap (h a) of
        Some f \<Rightarrow> (case f key of Inl e \<Rightarrow> Inl e | Inr v \<Rightarrow> Inr (v, st))
      | None \<Rightarrow>
          (case map_of (own (h a) @ inherited (h a)) key of
             None \<Rightarrow> Inr (Undefined, st)
           | Some (Data v e) \<Rightarrow> Inr (v, st)
           | Some (Accessor None e) \<Rightarrow> Inr (Undefined, st)
           | Some (Accessor (Some g) e) \<Rightarrow>
               (case g of
                  Inl err \<Rightarrow> Inl err
                | Inr v \<Rightarrow> Inr (v, st\<lparr>trace := trace st @ [Invoke a key]\<rparr>))))"
| "js_get h Undefined key st = Inl TypeError"
| "js_get h Null key st = Inl TypeError"
| "js_get h v key st = Inr (Undefined, st)"

text \<open>\<^verbatim>\<open>value.length >= 2\<close>, for the number an array's length is.\<close>

fun js_ge :: "jsval \<Rightarrow> int \<Rightarrow> bool" where
  "js_ge (Num n) k = (k \<le> sint n)"
| "js_ge (BigInt n) k = (k \<le> n)"
| "js_ge v k = False"

section \<open>Constants of the engine\<close>

definition placeholders :: "char set" where
  \<open>placeholders = set ''oOdisf''\<close>

definition COLLAPSED_CHAR :: string where
  \<open>COLLAPSED_CHAR = [CHR 0xE2, CHR 0x80, CHR 0xA6]\<close>

definition COLLAPSED_ARROW_RAW :: string where
  \<open>COLLAPSED_ARROW_RAW = [CHR 0xE2, CHR 0xAF, CHR 0x88]\<close>

definition EXPANDED_ARROW_RAW :: string where
  \<open>EXPANDED_ARROW_RAW = [CHR 0xE2, CHR 0xAF, CHR 0x86]\<close>

definition MAX_COLLAPSED_PROPERTIES :: nat where
  \<open>MAX_COLLAPSED_PROPERTIES = 5\<close>

datatype className =
    NULLISH | STRING | STRING_OBJECT | NUMERIC | REGEXP | OBJECT | FUNCTION
  | OBJECT_HIDDEN_PROPERTY | SET | MAP | FUNCTION_SIGNATURE | ARROW | DEFAULT
  | WARNING | LOG | ERROR | ENTRY | STACK

fun ClassNames :: "className \<Rightarrow> string" where
  \<open>ClassNames NULLISH = ''ec-nullish''\<close>
| \<open>ClassNames STRING = ''ec-string''\<close>
| \<open>ClassNames STRING_OBJECT = ''ec-regexp''\<close>
| \<open>ClassNames NUMERIC = ''ec-numeric''\<close>
| \<open>ClassNames REGEXP = ''ec-regexp''\<close>
| \<open>ClassNames OBJECT = ''ec-object''\<close>
| \<open>ClassNames FUNCTION = ''ec-function''\<close>
| \<open>ClassNames OBJECT_HIDDEN_PROPERTY = ''ec-hidden''\<close>
| \<open>ClassNames SET = ''ec-object''\<close>
| \<open>ClassNames MAP = ''ec-object''\<close>
| \<open>ClassNames FUNCTION_SIGNATURE = ''ec-function-signature''\<close>
| \<open>ClassNames ARROW = ''ec-collapse-arrow''\<close>
| \<open>ClassNames DEFAULT = ''ec-string''\<close>
| \<open>ClassNames WARNING = ''ec-warning''\<close>
| \<open>ClassNames LOG = ''ec-log''\<close>
| \<open>ClassNames ERROR = ''ec-error''\<close>
| \<open>ClassNames ENTRY = ''ec-entry''\<close>
| \<open>ClassNames STACK = ''ec-stack''\<close>

text \<open>The global \<^verbatim>\<open>Object\<close> constructor, which lives at a fixed address.\<close>

definition Object_ctor :: jsval where
  "Object_ctor = Ref 0"

section \<open>The type predicates \<^verbatim>\<open>is\<close>\<close>

fun is_nullish :: "jsval \<Rightarrow> bool" where
  "is_nullish Null = True"
| "is_nullish Undefined = True"
| "is_nullish v = False"

fun is_number :: "jsval \<Rightarrow> bool" where
  "is_number (Num n) = True"
| "is_number v = False"

fun is_bool :: "jsval \<Rightarrow> bool" where
  "is_bool (Bool b) = True"
| "is_bool v = False"

fun is_string :: "jsval \<Rightarrow> bool" where
  "is_string (Str s) = True"
| "is_string v = False"

fun is_bigint :: "jsval \<Rightarrow> bool" where
  "is_bigint (BigInt n) = True"
| "is_bigint v = False"

fun has_kind :: "heap \<Rightarrow> jsval \<Rightarrow> objkind \<Rightarrow> bool" where
  "has_kind h (Ref a) k = (kind (h a) = k)"
| "has_kind h v k = False"

definition is_function :: "heap \<Rightarrow> jsval \<Rightarrow> bool" where
  "is_function h v = has_kind h v FunctionObject"

definition is_array :: "heap \<Rightarrow> jsval \<Rightarrow> bool" where
  "is_array h v = has_kind h v ArrayObject"

definition is_error :: "heap \<Rightarrow> jsval \<Rightarrow> bool" where
  "is_error h v = has_kind h v ErrorObject"

definition is_regexp :: "heap \<Rightarrow> jsval \<Rightarrow> bool" where
  "is_regexp h v = has_kind h v RegExpObject"

definition is_set :: "heap \<Rightarrow> jsval \<Rightarrow> bool" where
  "is_set h v = has_kind h v SetLike"

definition is_map :: "heap \<Rightarrow> jsval \<Rightarrow> bool" where
  "is_map h v = has_kind h v MapLike"

definition is_weakset :: "heap \<Rightarrow> jsval \<Rightarrow> bool" where
  "is_weakset h v = has_kind h v WeakSetLike"

definition is_weakmap :: "heap \<Rightarrow> jsval \<Rightarrow> bool" where
  "is_weakmap h v = has_kind h v WeakMapLike"

definition is_weak :: "heap \<Rightarrow> jsval \<Rightarrow> bool" where
  "is_weak h v = (is_weakset h v \<or> is_weakmap h v)"

text \<open>\<^verbatim>\<open>typeof value === 'object'\<close> holds of every object that is not callable.\<close>

fun typeof_object :: "heap \<Rightarrow> jsval \<Rightarrow> bool" where
  "typeof_object h (Ref a) = (kind (h a) \<noteq> FunctionObject)"
| "typeof_object h Null = True"
| "typeof_object h v = False"

definition is_loseObject :: "heap \<Rightarrow> jsval \<Rightarrow> bool" where
  "is_loseObject h v = (\<not> is_nullish v \<and> typeof_object h v)"

definition is_strictObject :: "heap \<Rightarrow> jsval \<Rightarrow> bool" where
  "is_strictObject h v = (is_loseObject h v \<and> \<not> is_array h v)"

section \<open>Escaping and wrapping\<close>

text \<open>The \<^verbatim>\<open>switch\<close> of \<^verbatim>\<open>escapeHtml\<close>, and its loop over the characters.\<close>

definition escapeChar :: "char \<Rightarrow> string" where
  \<open>escapeChar c =
     (if c = CHR ''<'' then ''&lt;''
      else if c = CHR ''>'' then ''&gt;''
      else if c = CHR '' '' then ''&nbsp;''
      else if c = CHR 0x0A then ''<br />''
      else [c])\<close>

fun escapeString :: "string \<Rightarrow> string" where
  "escapeString [] = []"
| "escapeString (c # cs) = escapeChar c @ escapeString cs"

definition escapeHtml :: "heap \<Rightarrow> jsval \<Rightarrow> error + string" where
  "escapeHtml h v =
     (case (if \<not> is_string v then js_String h v else Inr (the_str v)) of
        Inl e \<Rightarrow> Inl e
      | Inr s \<Rightarrow> Inr (escapeString s))"

text \<open>
  \<^verbatim>\<open>wrapInSpan(className, value)\<close> escapes its value; \<^verbatim>\<open>wrapInSpan(className, value, false)\<close>,
  which the code calls on strings it has built from escaped parts, is \<open>wrapInSpanRaw\<close>.
\<close>

definition wrapInSpanRaw :: "className \<Rightarrow> string \<Rightarrow> string" where
  \<open>wrapInSpanRaw cls s = ''<span class="'' @ ClassNames cls @ ''">'' @ s @ ''</span>''\<close>

definition wrapInSpan :: "heap \<Rightarrow> className \<Rightarrow> jsval \<Rightarrow> error + string" where
  "wrapInSpan h cls v =
     (case escapeHtml h v of Inl e \<Rightarrow> Inl e | Inr escaped \<Rightarrow> Inr (wrapInSpanRaw cls escaped))"

definition FUNCTION_SIGNATURE_PREFIX :: string where
  \<open>FUNCTION_SIGNATURE_PREFIX = wrapInSpanRaw FUNCTION_SIGNATURE [CHR 0xC6, CHR 0x92, CHR '' '']\<close>

definition COLLAPSED_ARROW :: string where
  "COLLAPSED_ARROW = wrapInSpanRaw ARROW COLLAPSED_ARROW_RAW"

definition EXPANDED_ARROW :: string where
  "EXPANDED_ARROW = wrapInSpanRaw ARROW EXPANDED_ARROW_RAW"

definition trimString :: "string \<Rightarrow> nat \<Rightarrow> string" where
  "trimString str maxLen =
     (let len = min (length str) maxLen
      in take len str @ (if length str > maxLen then COLLAPSED_CHAR else []))"

fun join :: "string \<Rightarrow> string list \<Rightarrow> string" where
  "join sep [] = []"
| "join sep [x] = x"
| "join sep (x # y # ys) = x @ sep @ join sep (y # ys)"

definition internalProperties :: "string set" where
  \<open>internalProperties = {''length''}\<close>

fun visited_add :: "jsval \<Rightarrow> istate \<Rightarrow> istate" where
  "visited_add (Ref a) st = st\<lparr>visited := insert a (visited st)\<rparr>"
| "visited_add v st = st"

fun visited_has :: "istate \<Rightarrow> jsval \<Rightarrow> bool" where
  "visited_has st (Ref a) = (a \<in> visited st)"
| "visited_has st v = False"

fun own_props :: "heap \<Rightarrow> jsval \<Rightarrow> (string \<times> descriptor) list" where
  "own_props h (Ref a) = own (h a)"
| "own_props h v = []"

fun js_keys :: "heap \<Rightarrow> jsval \<Rightarrow> error + jsval list" where
  "js_keys h (Ref a) = keys_list (h a)"
| "js_keys h v = Inl TypeError"

fun js_entries :: "heap \<Rightarrow> jsval \<Rightarrow> error + (jsval \<times> jsval) list" where
  "js_entries h (Ref a) = entries_list (h a)"
| "js_entries h v = Inl TypeError"

fun walked :: "jsval \<Rightarrow> istate \<Rightarrow> istate" where
  "walked (Ref a) st = st\<lparr>trace := trace st @ [Walk a]\<rparr>"
| "walked v st = st"

definition ret :: "istate \<Rightarrow> error + string \<Rightarrow> error + (string \<times> istate)" where
  "ret st r = (case r of Inl e \<Rightarrow> Inl e | Inr s \<Rightarrow> Inr (s, st))"

section \<open>The inspector\<close>

text \<open>
  \<^verbatim>\<open>inspect\<close> and \<^verbatim>\<open>recursiveInspect\<close> call each other, to a depth that the inspected
  value decides. The model counts the stack frames: \<open>inspect d\<close> may nest \<open>d\<close> calls of
  \<^verbatim>\<open>inspect\<close>, and deeper recursion ends in \<open>OutOfStack\<close>. One call of \<^verbatim>\<open>inspect\<close> is
  \<open>inspectCall\<close>, whose first argument is the inspector it calls for nested values (the
  closure \<^verbatim>\<open>self\<close> of the source, with the visited set passed along as state);
  \<open>inspectProperty\<close> is the body of the \<^verbatim>\<open>for\<close> loop of \<^verbatim>\<open>recursiveInspect\<close> after the
  test of the cap, and \<open>inspectProperties\<close> the loop.

  \<^verbatim>\<open>self(k, false)\<close> and \<^verbatim>\<open>self(value.size, true)\<close> leave \<^verbatim>\<open>collapsed\<close> undefined, so that
  the default \<^verbatim>\<open>true\<close> applies; \<^verbatim>\<open>self(valueConstructor.name)\<close> leaves \<^verbatim>\<open>inObject\<close>
  undefined as well, which is the default \<^verbatim>\<open>false\<close>.
\<close>

type_synonym rendering = "error + (string \<times> istate)"
type_synonym inspector = "jsval \<Rightarrow> istate \<Rightarrow> bool \<Rightarrow> bool \<Rightarrow> rendering"

definition inspectProperty ::
  "inspector \<Rightarrow> heap \<Rightarrow> jsval \<Rightarrow> bool \<Rightarrow> string \<Rightarrow> string \<Rightarrow> istate \<Rightarrow> bool \<Rightarrow> rendering" where
  \<open>inspectProperty inspect h obj isArray key str st collapsed =
    (let descriptor = map_of (own_props h obj) key in
     case (if has_getter descriptor then Inr (FUNCTION_SIGNATURE_PREFIX @ '' [Getter]'', st)
           else
             (case js_get h obj key st of
                Inl e \<Rightarrow> Inl e
              | Inr (value, st1) \<Rightarrow>
                  if visited_has st1 value then Inr (''[Circular]'', st1)
                  else inspect value
                         (if is_loseObject h value then visited_add value st1 else st1)
                         True collapsed)) of
       Inl e \<Rightarrow> Inl e
     | Inr (result, st2) \<Rightarrow>
         let str1 = (if length str > 0 then str @ '', '' else str);
             str2 = (if \<not> collapsed then str1 @ ''<br />'' else str1);
             hasInternalProperty = (key \<in> internalProperties)
         in if \<not> isArray \<or> hasInternalProperty then
              let escapedKey0 = escapeString key;
                  escapedKey = (if hasInternalProperty then ''['' @ escapedKey0 @ '']''
                                else escapedKey0)
              in if (case descriptor of None \<Rightarrow> False | Some p \<Rightarrow> \<not> enumerable p) then
                   Inr (str2 @ wrapInSpanRaw OBJECT_HIDDEN_PROPERTY escapedKey @ '': '' @ result, st2)
                 else Inr (str2 @ escapedKey @ '': '' @ result, st2)
            else Inr (str2 @ result, st2))\<close>

fun inspectProperties ::
  "inspector \<Rightarrow> heap \<Rightarrow> jsval \<Rightarrow> bool \<Rightarrow> string list \<Rightarrow> nat \<Rightarrow> string \<Rightarrow> istate \<Rightarrow> bool \<Rightarrow> rendering" where
  \<open>inspectProperties inspect h obj isArray [] count str st collapsed = Inr (str, st)\<close>
| \<open>inspectProperties inspect h obj isArray (key # keys) count str st collapsed =
    (if collapsed \<and> count + 1 \<ge> MAX_COLLAPSED_PROPERTIES then
       Inr (str @ '', '' @ COLLAPSED_CHAR, st)
     else
       (case inspectProperty inspect h obj isArray key str st collapsed of
          Inl e \<Rightarrow> Inl e
        | Inr (str', st') \<Rightarrow>
            inspectProperties inspect h obj isArray keys (count + 1) str' st' collapsed))\<close>

definition recursiveInspect :: "inspector \<Rightarrow> heap \<Rightarrow> jsval \<Rightarrow> istate \<Rightarrow> bool \<Rightarrow> bool \<Rightarrow> rendering" where
  \<open>recursiveInspect inspect h obj st inObject collapsed =
    (if \<not> is_loseObject h obj then inspect obj st inObject collapsed
     else
       let isArray = is_array h obj;
           keys = map fst (own_props h obj)
       in (case inspectProperties inspect h obj isArray keys 0 [] (walked obj st) collapsed of
             Inl e \<Rightarrow> Inl e
           | Inr (str, st1) \<Rightarrow>
               Inr (if \<not> isArray then ''{'' @ str @ ''}'' else ''['' @ str @ '']'', st1)))\<close>

fun inspectKeys :: "inspector \<Rightarrow> jsval list \<Rightarrow> istate \<Rightarrow> error + (string list \<times> istate)" where
  \<open>inspectKeys self [] st = Inr ([], st)\<close>
| \<open>inspectKeys self (k # ks) st =
    (case self k st False True of
       Inl e \<Rightarrow> Inl e
     | Inr (s, st1) \<Rightarrow>
         (case inspectKeys self ks st1 of
            Inl e \<Rightarrow> Inl e
          | Inr (ss, st2) \<Rightarrow> Inr (s # ss, st2)))\<close>

fun inspectEntries :: "inspector \<Rightarrow> (jsval \<times> jsval) list \<Rightarrow> istate \<Rightarrow> error + (string list \<times> istate)" where
  \<open>inspectEntries self [] st = Inr ([], st)\<close>
| \<open>inspectEntries self ((k, v) # es) st =
    (case self k st True True of
       Inl e \<Rightarrow> Inl e
     | Inr (kHtml, st1) \<Rightarrow>
    (case self v st1 True True of
       Inl e \<Rightarrow> Inl e
     | Inr (vHtml, st2) \<Rightarrow>
         (case inspectEntries self es st2 of
            Inl e \<Rightarrow> Inl e
          | Inr (ss, st3) \<Rightarrow> Inr ((kHtml @ '' => '' @ vHtml) # ss, st3))))\<close>

definition inspectCall :: "inspector \<Rightarrow> heap \<Rightarrow> jsval \<Rightarrow> istate \<Rightarrow> bool \<Rightarrow> bool \<Rightarrow> rendering" where
  \<open>inspectCall self h value st inObject collapsed =
    (let ARROW = (if collapsed then COLLAPSED_ARROW else EXPANDED_ARROW) in
     if is_string value then
       (if inObject then
          ret st (wrapInSpan h STRING_OBJECT (Str (''"'' @ trimString (the_str value) 100 @ ''"'')))
        else ret st (wrapInSpan h STRING value))
     else if is_nullish value then ret st (wrapInSpan h NULLISH value)
     else if is_error h value then
       (case js_get h value ''stack'' st of
          Inl e \<Rightarrow> Inl e
        | Inr (stack, st1) \<Rightarrow> ret st1 (wrapInSpan h DEFAULT (if truthy stack then stack else value)))
     else if is_regexp h value then ret st (wrapInSpan h REGEXP value)
     else if is_set h value then
       (case js_get h value ''size'' st of
          Inl e \<Rightarrow> Inl e
        | Inr (sizeValue, st1) \<Rightarrow>
       (case self sizeValue st1 True True of
          Inl e \<Rightarrow> Inl e
        | Inr (sizeHtml, st2) \<Rightarrow>
       (case js_keys h value of
          Inl e \<Rightarrow> Inl e
        | Inr ks \<Rightarrow>
       (case inspectKeys self ks st2 of
          Inl e \<Rightarrow> Inl e
        | Inr (parts, st3) \<Rightarrow>
            Inr (wrapInSpanRaw SET
                  ((''Set('' @ sizeHtml @ '')'') @ '' {'' @ join '', '' parts @ ''}''), st3)))))
     else if is_map h value then
       (case js_get h value ''size'' st of
          Inl e \<Rightarrow> Inl e
        | Inr (sizeValue, st1) \<Rightarrow>
       (case self sizeValue st1 True True of
          Inl e \<Rightarrow> Inl e
        | Inr (sizeHtml, st2) \<Rightarrow>
       (case js_entries h value of
          Inl e \<Rightarrow> Inl e
        | Inr es \<Rightarrow>
       (case inspectEntries self es st2 of
          Inl e \<Rightarrow> Inl e
        | Inr (parts, st3) \<Rightarrow>
            Inr (wrapInSpanRaw MAP
                  ((''Map('' @ sizeHtml @ '')'') @ '' {'' @ join '', '' parts @ ''}''), st3)))))
     else if is_strictObject h value then
       (case (if is_weak h value then Inr (escapeString ''{ <items unknown> }'', st)
              else recursiveInspect self h value (visited_add value st) inObject collapsed) of
          Inl e \<Rightarrow> Inl e
        | Inr (result, st1) \<Rightarrow>
       (case js_get h value ''constructor'' st1 of
          Inl e \<Rightarrow> Inl e
        | Inr (valueConstructor, st2) \<Rightarrow>
            if truthy valueConstructor \<and> valueConstructor \<noteq> Object_ctor then
              (case js_get h valueConstructor ''name'' st2 of
                 Inl e \<Rightarrow> Inl e
               | Inr (name, st3) \<Rightarrow>
              (case self name st3 False True of
                 Inl e \<Rightarrow> Inl e
               | Inr (nameHtml, st4) \<Rightarrow>
                   Inr (wrapInSpanRaw OBJECT (((ARROW @ '' '') @ nameHtml @ '' '') @ result), st4)))
            else Inr (wrapInSpanRaw OBJECT ((ARROW @ '' '') @ result), st2)))
     else if is_array h value then
       (case recursiveInspect self h value (visited_add value st) inObject collapsed of
          Inl e \<Rightarrow> Inl e
        | Inr (result, st1) \<Rightarrow>
       (case js_get h value ''length'' st1 of
          Inl e \<Rightarrow> Inl e
        | Inr (len, st2) \<Rightarrow>
            if js_ge len 2 then
              (case self len st2 True True of
                 Inl e \<Rightarrow> Inl e
               | Inr (lenHtml, st3) \<Rightarrow>
                   Inr (wrapInSpanRaw OBJECT (((ARROW @ '' '') @ ''('' @ lenHtml @ '') '') @ result), st3))
            else Inr (wrapInSpanRaw OBJECT ((ARROW @ '' '') @ result), st2)))
     else if is_function h value then
       (case js_get h value ''name'' st of
          Inl e \<Rightarrow> Inl e
        | Inr (name, st1) \<Rightarrow>
            if truthy name then
              (case js_String h value of
                 Inl e \<Rightarrow> Inl e
               | Inr val0 \<Rightarrow>
              (case (if inObject then
                       (case js_template_string h name of
                          Inl e \<Rightarrow> Inl e
                        | Inr n \<Rightarrow> Inr (n @ ''()''))
                     else Inr val0) of
                 Inl e \<Rightarrow> Inl e
               | Inr val \<Rightarrow>
              (case wrapInSpan h FUNCTION (Str (trimString val 100)) of
                 Inl e \<Rightarrow> Inl e
               | Inr w \<Rightarrow> Inr (FUNCTION_SIGNATURE_PREFIX @ w, st1))))
            else ret st1 (wrapInSpan h FUNCTION (Str (''() => '' @ COLLAPSED_CHAR))))
     else if is_number value \<or> is_bool value then ret st (wrapInSpan h NUMERIC value)
     else if is_bigint value then
       (case js_concat_string h value of
          Inl e \<Rightarrow> Inl e
        | Inr s \<Rightarrow> ret st (wrapInSpan h STRING (Str (s @ ''n''))))
     else ret st (wrapInSpan h DEFAULT value))\<close>

primrec inspect :: "nat \<Rightarrow> heap \<Rightarrow> inspector" where
  \<open>inspect 0 h = (\<lambda>value st inObject collapsed. Inl OutOfStack)\<close>
| \<open>inspect (Suc d) h = inspectCall (inspect d h) h\<close>

section \<open>The formatter and the console\<close>

text \<open>
  The loop of \<^verbatim>\<open>_formatString\<close> over the characters of the template: \<open>prev\<close> is
  \<^verbatim>\<open>initial[i - 1]\<close> (nothing before the first character), \<open>idx\<close> and \<open>res\<close> are the
  variables of the source. \<^verbatim>\<open>data[++idx]\<close> beyond the end of \<^verbatim>\<open>data\<close> is \<^verbatim>\<open>undefined\<close>.
\<close>

definition data_at :: "jsval list \<Rightarrow> nat \<Rightarrow> jsval" where
  "data_at data i = (if i < length data then data ! i else Undefined)"

fun substitute ::
  "heap \<Rightarrow> jsval list \<Rightarrow> char option \<Rightarrow> nat \<Rightarrow> string \<Rightarrow> string \<Rightarrow> error + (nat \<times> string)" where
  \<open>substitute h data prev idx res [] = Inr (idx, res)\<close>
| \<open>substitute h data prev idx res (char # rest) =
    (if char \<in> placeholders \<and> prev = Some CHR ''%'' then
       (let arg = data_at data (idx + 1) in
        case (if truthy arg then js_concat_string h arg else Inr [CHR ''%'', char]) of
          Inl e \<Rightarrow> Inl e
        | Inr s \<Rightarrow> substitute h data (Some char) (idx + 1) (res @ s) rest)
     else if char = CHR ''%'' then substitute h data (Some char) idx res rest
     else substitute h data (Some char) idx (res @ [char]) rest)\<close>

text \<open>
  One argument of the \<^verbatim>\<open>map\<close> of \<^verbatim>\<open>_formatString\<close>: a top-level inspection with a new
  visited set, and \<^verbatim>\<open>[Unknown]\<close> for whatever it raises (an exhausted stack is a
  RangeError in JavaScript, which the \<^verbatim>\<open>catch\<close> receives like any other exception).
\<close>

definition inspectParam :: "nat \<Rightarrow> heap \<Rightarrow> bool \<Rightarrow> jsval \<Rightarrow> string" where
  \<open>inspectParam d h collapsed param =
    (case inspect d h param fresh False collapsed of
       Inl e \<Rightarrow> ''[Unknown]''
     | Inr (value, st) \<Rightarrow> value)\<close>

text \<open>
  \<^verbatim>\<open>_formatString(collapsed, ...data)\<close>. The result of
  \<^verbatim>\<open>native.arraySlice.call(data, 1, idx)\<close> is dropped by the source, and \<^verbatim>\<open>slice\<close> leaves
  \<^verbatim>\<open>data\<close> as it is.
\<close>

definition formatString :: "nat \<Rightarrow> heap \<Rightarrow> bool \<Rightarrow> jsval list \<Rightarrow> error + string" where
  \<open>formatString d h collapsed data =
    (case data of
       Str initial # others \<Rightarrow>
         (case substitute h data None 0 [] initial of
            Inl e \<Rightarrow> Inl e
          | Inr (idx, res) \<Rightarrow>
              Inr (join '' '' (map (inspectParam d h collapsed) (data[0 := Str res]))))
     | _ \<Rightarrow> Inr (join '' '' (map (inspectParam d h collapsed) data)))\<close>

text \<open>
  The console: its timers, and the entries it has appended to its element, each with the
  class of its level, its markup and the arguments that \<^verbatim>\<open>logs\<close> keeps for it. The line
  of context that \<^verbatim>\<open>_add\<close> reads from a stack trace is left out.

  The clock (\<^verbatim>\<open>performance.now\<close>, or \<^verbatim>\<open>Date.now\<close>) is read outside the model: a reading is
  a value of a type \<open>'t\<close> that the model leaves open, passed to \<^verbatim>\<open>time\<close> and
  \<^verbatim>\<open>timeEnd\<close>, and \<open>elapsed now p\<close> stands for the string that the language makes of the
  difference \<^verbatim>\<open>now - p\<close> of two readings, which are doubles in the source.
\<close>

record entry =
  level :: className
  innerHTML :: string
  rawArgs :: "jsval list"

record 't console =
  timers :: "string \<rightharpoonup> 't"
  entries :: "entry list"

definition add :: "string \<Rightarrow> className \<Rightarrow> jsval list \<Rightarrow> 't console \<Rightarrow> 't console" where
  "add markup logLevel data c =
     c\<lparr>entries := entries c @ [\<lparr>level = logLevel, innerHTML = markup, rawArgs = data\<rparr>]\<rparr>"


definition log :: "nat \<Rightarrow> heap \<Rightarrow> jsval list \<Rightarrow> 't console \<Rightarrow> error + 't console" where
  "log d h data c =
     (case formatString d h True data of Inl e \<Rightarrow> Inl e | Inr markup \<Rightarrow> Inr (add markup LOG data c))"

definition error :: "nat \<Rightarrow> heap \<Rightarrow> jsval list \<Rightarrow> 't console \<Rightarrow> error + 't console" where
  "error d h data c =
     (case formatString d h True data of Inl e \<Rightarrow> Inl e | Inr markup \<Rightarrow> Inr (add markup ERROR data c))"

definition info :: "nat \<Rightarrow> heap \<Rightarrow> jsval list \<Rightarrow> 't console \<Rightarrow> error + 't console" where
  "info d h data c = log d h data c"



definition assert ::
  "nat \<Rightarrow> heap \<Rightarrow> jsval \<Rightarrow> jsval list \<Rightarrow> 't console \<Rightarrow> error + 't console" where
  \<open>assert d h condition data c =
    (if \<not> truthy condition then error d h (Str ''Assertion failed:'' # data) c else Inr c)\<close>

definition clear :: "'t console \<Rightarrow> 't console" where
  "clear c = c\<lparr>entries := []\<rparr>"

section \<open>Predicates on markup and on templates\<close>

text \<open>
  \<open>contains needle s\<close>: \<open>needle\<close> occurs in \<open>s\<close>. \<open>only_br_tags s\<close>: every \<^verbatim>\<open><\<close> and
  \<^verbatim>\<open>>\<close> of \<open>s\<close> belongs to a line break \<^verbatim>\<open><br />\<close>.
\<close>

fun contains :: "string \<Rightarrow> string \<Rightarrow> bool" where
  "contains needle [] = (needle = [])"
| "contains needle (c # cs) = (prefix needle (c # cs) \<or> contains needle cs)"

fun only_br_tags :: "string \<Rightarrow> bool" where
  \<open>only_br_tags [] = True\<close>
| \<open>only_br_tags (c # cs) =
    (if take 6 (c # cs) = ''<br />'' then only_br_tags (drop 5 cs)
     else c \<noteq> CHR ''<'' \<and> c \<noteq> CHR ''>'' \<and> only_br_tags cs)\<close>

text \<open>
  The markup that the engine means to emit: text without \<^verbatim>\<open><\<close>, line breaks, and spans of
  the engine's classes, opened and closed. An inspector is safe when all it renders is
  such markup.
\<close>

inductive engine_markup :: "string \<Rightarrow> bool" where
  empty: \<open>engine_markup []\<close>
| plain: \<open>c \<noteq> CHR ''<'' \<Longrightarrow> engine_markup s \<Longrightarrow> engine_markup (c # s)\<close>
| br: \<open>engine_markup s \<Longrightarrow> engine_markup (''<br />'' @ s)\<close>
| span_close: \<open>engine_markup s \<Longrightarrow> engine_markup (''</span>'' @ s)\<close>
| span_open: \<open>engine_markup s \<Longrightarrow> engine_markup (''<span class="'' @ ClassNames cls @ ''">'' @ s)\<close>

code_pred engine_markup .

definition safe_inspector :: "inspector \<Rightarrow> bool" where
  \<open>safe_inspector self =
     (\<forall>v st inObject collapsed out st'.
        self v st inObject collapsed = Inr (out, st') \<longrightarrow> engine_markup out)\<close>

text \<open>\<open>has_placeholder t\<close>: some \<^verbatim>\<open>%\<close> of \<open>t\<close> is followed by a recognized specifier.\<close>

fun has_placeholder :: "string \<Rightarrow> bool" where
  \<open>has_placeholder (a # b # cs) = ((a = CHR ''%'' \<and> b \<in> placeholders) \<or> has_placeholder (b # cs))\<close>
| \<open>has_placeholder cs = False\<close>

text \<open>
  A template read as the spec reads it: literal text without \<^verbatim>\<open>%\<close>, and placeholders.
  \<open>fill\<close> follows the words of the spec for the substitution: from left to right, each
  placeholder takes the string form of the next trailing argument, and stays as it is
  written once the arguments have run out.
\<close>

datatype token = Lit string | Spec char

fun unparse :: "token list \<Rightarrow> string" where
  \<open>unparse [] = []\<close>
| \<open>unparse (Lit s # ts) = s @ unparse ts\<close>
| \<open>unparse (Spec c # ts) = CHR ''%'' # c # unparse ts\<close>

fun well_formed :: "token \<Rightarrow> bool" where
  \<open>well_formed (Lit s) = (CHR ''%'' \<notin> set s)\<close>
| \<open>well_formed (Spec c) = (c \<in> placeholders)\<close>

fun fill :: "heap \<Rightarrow> token list \<Rightarrow> jsval list \<Rightarrow> error + string" where
  \<open>fill h [] args = Inr []\<close>
| \<open>fill h (Lit s # ts) args = (case fill h ts args of Inl e \<Rightarrow> Inl e | Inr r \<Rightarrow> Inr (s @ r))\<close>
| \<open>fill h (Spec c # ts) [] =
    (case fill h ts [] of Inl e \<Rightarrow> Inl e | Inr r \<Rightarrow> Inr (CHR ''%'' # c # r))\<close>
| \<open>fill h (Spec c # ts) (a # args) =
    (case js_concat_string h a of
       Inl e \<Rightarrow> Inl e
     | Inr s \<Rightarrow> (case fill h ts args of Inl e \<Rightarrow> Inl e | Inr r \<Rightarrow> Inr (s @ r)))\<close>



section \<open>Sample objects\<close>

text \<open>
  \<open>obj0\<close> is the object literal \<^verbatim>\<open>{}\<close>, whose \<^verbatim>\<open>constructor\<close> is \<^verbatim>\<open>Object\<close>, and
  \<open>heap0\<close> a heap of such objects. The other heaps hold, at address 1 and up:
  \<^item> \<open>cyclic_heap\<close>: \<^verbatim>\<open>a = {}; a.self = a\<close>;
  \<^item> \<open>throwing_getter_heap\<close>: \<^verbatim>\<open>{ get constructor() { throw 'boom' } }\<close>;
  \<^item> \<open>returning_getter_heap\<close>: \<^verbatim>\<open>{ get constructor() { return 5 } }\<close>;
  \<^item> \<open>getter_heap\<close>: \<^verbatim>\<open>{ get x() { throw 'boom' } }\<close>;
  \<^item> \<open>set_heap\<close>: \<^verbatim>\<open>o = {}; o.s = new Set([o])\<close> at 1 and 2, and \<^verbatim>\<open>t = new Set(); t.add(t)\<close>
    at 3;
  \<^item> \<open>ten_heap\<close>: \<^verbatim>\<open>{a: 1, b: 2, c: 3, d: 4, e: 5, f: 6, g: 7, h: 8, i: 9, j: 10}\<close>;
  \<^item> \<open>size_heap\<close>: an empty Set-like and an empty Map-like object whose \<^verbatim>\<open>size\<close>
    accessor returns \<^verbatim>\<open><b>x</b>\<close>;
  \<^item> \<open>proxy_heap\<close>: \<^verbatim>\<open>new Proxy({}, { get() { throw 1; } })\<close>.
\<close>

definition obj0 :: jsobj where
  \<open>obj0 = \<lparr>kind = PlainObject, own = [], inherited = [(''constructor'', Data Object_ctor False)],
     get_trap = None, to_str = Inr ''[object Object]'', to_default = Inr ''[object Object]'',
     keys_list = Inl TypeError,
     entries_list = Inl TypeError\<rparr>\<close>

definition heap0 :: heap where
  "heap0 = (\<lambda>a. obj0)"

definition cyclic_heap :: heap where
  \<open>cyclic_heap = heap0(1 := obj0\<lparr>own := [(''self'', Data (Ref 1) True)]\<rparr>)\<close>

definition throwing_getter_heap :: heap where
  \<open>throwing_getter_heap =
     heap0(1 := obj0\<lparr>own := [(''constructor'', Accessor (Some (Inl (Thrown (Str ''boom'')))) True)]\<rparr>)\<close>

definition returning_getter_heap :: heap where
  \<open>returning_getter_heap =
     heap0(1 := obj0\<lparr>own := [(''constructor'', Accessor (Some (Inr (Num 5))) True)]\<rparr>)\<close>

definition getter_heap :: heap where
  \<open>getter_heap =
     heap0(1 := obj0\<lparr>own := [(''x'', Accessor (Some (Inl (Thrown (Str ''boom'')))) True)]\<rparr>)\<close>

definition set_heap :: heap where
  \<open>set_heap =
     heap0(1 := obj0\<lparr>own := [(''s'', Data (Ref 2) True)]\<rparr>,
           2 := obj0\<lparr>kind := SetLike, inherited := [(''size'', Data (Num 1) False)],
                      keys_list := Inr [Ref 1]\<rparr>,
           3 := obj0\<lparr>kind := SetLike, inherited := [(''size'', Data (Num 1) False)],
                      keys_list := Inr [Ref 3]\<rparr>)\<close>

definition ten_heap :: heap where
  \<open>ten_heap =
     heap0(1 := obj0\<lparr>own :=
       [(''a'', Data (Num 1) True), (''b'', Data (Num 2) True), (''c'', Data (Num 3) True),
        (''d'', Data (Num 4) True), (''e'', Data (Num 5) True), (''f'', Data (Num 6) True),
        (''g'', Data (Num 7) True), (''h'', Data (Num 8) True), (''i'', Data (Num 9) True),
        (''j'', Data (Num 10) True)]\<rparr>)\<close>

definition size_heap :: heap where
  \<open>size_heap =
     heap0(1 := obj0\<lparr>kind := SetLike,
                      own := [(''size'', Accessor (Some (Inr (Str ''<b>x</b>''))) True)],
                      keys_list := Inr []\<rparr>,
           2 := obj0\<lparr>kind := MapLike,
                      own := [(''size'', Accessor (Some (Inr (Str ''<b>x</b>''))) True)],
                      entries_list := Inr []\<rparr>)\<close>

definition proxy_heap :: heap where
  \<open>proxy_heap =
     heap0(1 := obj0\<lparr>get_trap := Some (\<lambda>key. Inl (Thrown (Num 1))),
                      to_str := Inl (Thrown (Num 1)), to_default := Inl (Thrown (Num 1))\<rparr>)\<close>

definition console0 :: "int console" where
  "console0 = \<lparr>timers = Map.empty, entries = []\<rparr>"

text \<open>The markup of a number, for the statements below.\<close>

definition num :: "string \<Rightarrow> string" where
  "num s = wrapInSpanRaw NUMERIC s"

section \<open>Evaluation lemmas\<close>

lemmas is_defs = is_function_def is_array_def is_error_def is_regexp_def is_set_def is_map_def
  is_weakset_def is_weakmap_def is_weak_def is_loseObject_def is_strictObject_def

lemmas inspect_defs = inspectCall_def recursiveInspect_def inspectProperty_def is_defs
  MAX_COLLAPSED_PROPERTIES_def internalProperties_def ret_def wrapInSpan_def escapeHtml_def
  Let_def

lemmas heap_defs = heap0_def obj0_def fresh_def Object_ctor_def

lemma sint_digit [simp]:
  \<open>sint (1 :: 54 word) = 1\<close> \<open>sint (2 :: 54 word) = 2\<close> \<open>sint (3 :: 54 word) = 3\<close>
  \<open>sint (4 :: 54 word) = 4\<close> \<open>sint (5 :: 54 word) = 5\<close> \<open>sint (6 :: 54 word) = 6\<close>
  \<open>sint (7 :: 54 word) = 7\<close> \<open>sint (8 :: 54 word) = 8\<close> \<open>sint (9 :: 54 word) = 9\<close>
  \<open>sint (10 :: 54 word) = 10\<close>
  by simp_all

lemma string_of_int_digit [simp]:
  \<open>string_of_int 1 = ''1''\<close> \<open>string_of_int 2 = ''2''\<close> \<open>string_of_int 3 = ''3''\<close>
  \<open>string_of_int 4 = ''4''\<close> \<open>string_of_int 5 = ''5''\<close> \<open>string_of_int 6 = ''6''\<close>
  \<open>string_of_int 7 = ''7''\<close> \<open>string_of_int 8 = ''8''\<close> \<open>string_of_int 9 = ''9''\<close>
  \<open>string_of_int 10 = ''10''\<close> \<open>string_of_int 0 = ''0''\<close>
  by (simp_all add: string_of_int_def string_of_nat.simps digit_char_def)

lemma inspectCall_Str:
  \<open>inspectCall self h (Str s) st inObject collapsed =
     Inr (if inObject then wrapInSpanRaw STRING_OBJECT (escapeString (''"'' @ trimString s 100 @ ''"''))
          else wrapInSpanRaw STRING (escapeString s), st)\<close>
  by (simp add: inspectCall_def ret_def wrapInSpan_def escapeHtml_def)

lemma inspectCall_Num:
  \<open>inspectCall self h (Num n) st inObject collapsed =
     Inr (wrapInSpanRaw NUMERIC (escapeString (string_of_int (sint n))), st)\<close>
  by (simp add: inspectCall_def ret_def wrapInSpan_def escapeHtml_def is_defs)

text \<open>An object literal: the walk of its properties, between braces, after the arrow.\<close>

lemma inspectCall_plain:
  assumes \<open>kind (h a) = PlainObject\<close> and \<open>get_trap (h a) = None\<close>
    and \<open>map_of (own (h a) @ inherited (h a)) ''constructor'' = Some (Data Object_ctor e)\<close>
  shows \<open>inspectCall self h (Ref a) st inObject collapsed =
    (case inspectProperties self h (Ref a) False (map fst (own (h a))) 0 []
            (st\<lparr>visited := insert a (visited st), trace := trace st @ [Walk a]\<rparr>) collapsed of
       Inl e \<Rightarrow> Inl e
     | Inr (str, st1) \<Rightarrow>
         Inr (wrapInSpanRaw OBJECT
                ((if collapsed then COLLAPSED_ARROW else EXPANDED_ARROW) @ '' {'' @ str @ ''}''), st1))\<close>
  using assms
  by (simp add: inspectCall_def recursiveInspect_def is_defs Let_def split: sum.splits prod.splits)

lemma inspectProperty_primitive:
  assumes \<open>get_trap (h a) = None\<close>
    and \<open>map_of (own (h a)) key = Some (Data v True)\<close>
    and \<open>\<forall>r. v \<noteq> Ref r\<close> and \<open>key \<noteq> ''length''\<close>
  shows \<open>inspectProperty self h (Ref a) False key str st collapsed =
    (case self v st True collapsed of
       Inl e \<Rightarrow> Inl e
     | Inr (result, st') \<Rightarrow>
         Inr ((if str = [] then [] else str @ '', '') @ (if collapsed then [] else ''<br />'')
              @ escapeString key @ '': '' @ result, st'))\<close>
  using assms
  by (cases v) (simp_all add: inspectProperty_def is_defs internalProperties_def Let_def
      split: sum.splits prod.splits)

section \<open>Escaping\<close>

lemma only_br_tags_escapeChar: "only_br_tags (escapeChar c @ t) = only_br_tags t"
  by (simp add: escapeChar_def)

lemma only_br_tags_escapeString_append: "only_br_tags (escapeString s @ t) = only_br_tags t"
  by (induction s) (simp_all add: only_br_tags_escapeChar)

lemma only_br_tags_escapeString: "only_br_tags (escapeString s)"
  using only_br_tags_escapeString_append [of s "[]"] by simp

lemma escapeString_no_angle:
  \<open>CHR 0x0A \<notin> set s \<Longrightarrow> CHR ''<'' \<notin> set (escapeString s) \<and> CHR ''>'' \<notin> set (escapeString s)\<close>
  by (induction s) (auto simp: escapeChar_def)

text \<open>
  Claim C1, as the spec states it, fails on two counts. The space of \<^verbatim>\<open><img src=x>\<close> is
  escaped too, so the fragment holds \<^verbatim>\<open>&lt;img&nbsp;src=x&gt;\<close> and not
  \<^verbatim>\<open>&lt;img src=x&gt;\<close>; and a newline becomes a \<^verbatim>\<open><br />\<close> tag inside the wrapping span.
\<close>

theorem escaping_counterexample:
  \<open>inspect (Suc 0) heap0 (Str ''<img src=x>'') fresh False True =
      Inr (''<span class="ec-string">&lt;img&nbsp;src=x&gt;</span>'', fresh)
   \<and> \<not> contains ''&lt;img src=x&gt;'' ''<span class="ec-string">&lt;img&nbsp;src=x&gt;</span>''
   \<and> inspect (Suc 0) heap0 (Str [CHR ''a'', CHR 0x0A, CHR ''b'']) fresh False True =
      Inr (''<span class="ec-string">a<br />b</span>'', fresh)\<close>
  by (simp add: inspectCall_Str wrapInSpanRaw_def escapeChar_def)

text \<open>
  Claim C1, amended: for every string the inspector returns the string escaped and wrapped
  in one span, at top level and (quoted and trimmed) inside an object; every \<^verbatim>\<open><\<close> and
  \<^verbatim>\<open>>\<close> of the escaped text belongs to a \<^verbatim>\<open><br />\<close> that stands for a newline, so a
  string without newlines yields none at all; and \<^verbatim>\<open><img src=x>\<close> yields
  \<^verbatim>\<open>&lt;img&nbsp;src=x&gt;\<close>.
\<close>

theorem escaping_invariant:
  \<open>inspect (Suc d) h (Str s) st False collapsed = Inr (wrapInSpanRaw STRING (escapeString s), st)
   \<and> inspect (Suc d) h (Str s) st True collapsed =
       Inr (wrapInSpanRaw STRING_OBJECT (escapeString (''"'' @ trimString s 100 @ ''"'')), st)
   \<and> only_br_tags (escapeString s)
   \<and> only_br_tags (escapeString (''"'' @ trimString s 100 @ ''"''))
   \<and> (CHR 0x0A \<notin> set s \<longrightarrow> CHR ''<'' \<notin> set (escapeString s) \<and> CHR ''>'' \<notin> set (escapeString s))
   \<and> inspect (Suc d) h (Str ''<img src=x>'') st False collapsed =
       Inr (''<span class="ec-string">&lt;img&nbsp;src=x&gt;</span>'', st)\<close>
proof -
  have top: \<open>inspect (Suc d) h (Str s) st False collapsed =
      Inr (wrapInSpanRaw STRING (escapeString s), st)\<close>
    by (simp add: inspectCall_Str)
  have nested: \<open>inspect (Suc d) h (Str s) st True collapsed =
      Inr (wrapInSpanRaw STRING_OBJECT (escapeString (''"'' @ trimString s 100 @ ''"'')), st)\<close>
    by (simp add: inspectCall_Str)
  have img: \<open>inspect (Suc d) h (Str ''<img src=x>'') st False collapsed =
      Inr (''<span class="ec-string">&lt;img&nbsp;src=x&gt;</span>'', st)\<close>
    by (simp add: inspectCall_Str escapeChar_def wrapInSpanRaw_def)
  show ?thesis
    using top nested img escapeString_no_angle [of s] only_br_tags_escapeString
    by blast
qed

theorem escaping_invariant_witness:
  \<open>CHR 0x0A \<notin> set ''<b> c''
   \<and> CHR ''<'' \<notin> set (escapeString ''<b> c'') \<and> CHR ''>'' \<notin> set (escapeString ''<b> c'')
   \<and> inspect (Suc 0) heap0 (Str ''<b> c'') fresh False True =
       Inr (''<span class="ec-string">&lt;b&gt;&nbsp;c</span>'', fresh)\<close>
  using escaping_invariant [of 0 heap0 \<open>''<b> c''\<close> fresh True]
  by (simp add: escapeChar_def wrapInSpanRaw_def)

section \<open>Accessor properties\<close>

text \<open>
  Claim C2 holds of every accessor but one. The loop of \<^verbatim>\<open>recursiveInspect\<close> renders an
  accessor property as \<^verbatim>\<open>[Getter]\<close> and does not call it; but \<^verbatim>\<open>inspect\<close> then reads
  \<^verbatim>\<open>value.constructor\<close>, and when the accessor is the object's own \<^verbatim>\<open>constructor\<close> that
  read calls the getter: what it throws leaves \<^verbatim>\<open>inspect\<close> (the formatter shows
  \<^verbatim>\<open>[Unknown]\<close>), and what it returns is used. The trace of the second object records the
  call. The last part is the claim for an accessor of any other name: the rendering does
  not depend on what the getter would do, and the trace holds no call.
\<close>

theorem getter_of_constructor_is_invoked:
  \<open>inspect (Suc d) throwing_getter_heap (Ref 1) fresh False True = Inl (Thrown (Str ''boom''))
   \<and> formatString (Suc d) throwing_getter_heap True [Ref 1] = Inr ''[Unknown]''
   \<and> inspect (Suc (Suc d)) returning_getter_heap (Ref 1) fresh False True =
       Inr (wrapInSpanRaw OBJECT
              (COLLAPSED_ARROW @ '' '' @ wrapInSpanRaw NULLISH ''undefined'' @ '' {constructor: ''
                 @ FUNCTION_SIGNATURE_PREFIX @ '' [Getter]}''),
            \<lparr>visited = {1}, trace = [Walk 1, Invoke 1 ''constructor'']\<rparr>)
   \<and> (kind (h a) = PlainObject \<and> get_trap (h a) = None
        \<and> own (h a) = [(key, Accessor (Some g) True)]
        \<and> key \<noteq> ''constructor'' \<and> key \<noteq> ''length''
        \<and> map_of (inherited (h a)) ''constructor'' = Some (Data Object_ctor False)
      \<longrightarrow> inspect (Suc d) h (Ref a) st inObject True =
            Inr (wrapInSpanRaw OBJECT
                   (COLLAPSED_ARROW @ '' {'' @ escapeString key @ '': '' @ FUNCTION_SIGNATURE_PREFIX
                      @ '' [Getter]}''),
                 st\<lparr>visited := insert a (visited st), trace := trace st @ [Walk a]\<rparr>))\<close>
proof -
  have throwing: \<open>inspect (Suc d) throwing_getter_heap (Ref 1) fresh False True =
      Inl (Thrown (Str ''boom''))\<close>
    by (simp add: inspect_defs throwing_getter_heap_def heap_defs)
  then have unknown: \<open>formatString (Suc d) throwing_getter_heap True [Ref 1] = Inr ''[Unknown]''\<close>
    by (simp add: formatString_def inspectParam_def)
  have returning: \<open>inspect (Suc (Suc d)) returning_getter_heap (Ref 1) fresh False True =
       Inr (wrapInSpanRaw OBJECT
              (COLLAPSED_ARROW @ '' '' @ wrapInSpanRaw NULLISH ''undefined'' @ '' {constructor: ''
                 @ FUNCTION_SIGNATURE_PREFIX @ '' [Getter]}''),
            \<lparr>visited = {1}, trace = [Walk 1, Invoke 1 ''constructor'']\<rparr>)\<close>
    by (simp add: inspect_defs escapeChar_def returning_getter_heap_def heap_defs)
  have other: \<open>inspect (Suc d) h (Ref a) st inObject True =
            Inr (wrapInSpanRaw OBJECT
                   (COLLAPSED_ARROW @ '' {'' @ escapeString key @ '': '' @ FUNCTION_SIGNATURE_PREFIX
                      @ '' [Getter]}''),
                 st\<lparr>visited := insert a (visited st), trace := trace st @ [Walk a]\<rparr>)\<close>
    if \<open>kind (h a) = PlainObject\<close> \<open>get_trap (h a) = None\<close>
      \<open>own (h a) = [(key, Accessor (Some g) True)]\<close>
      \<open>key \<noteq> ''constructor''\<close> \<open>key \<noteq> ''length''\<close>
      \<open>map_of (inherited (h a)) ''constructor'' = Some (Data Object_ctor False)\<close>
    using that by (simp add: inspect_defs)
  show ?thesis
    using throwing unknown returning other by blast
qed

theorem getter_of_constructor_is_invoked_witness:
  \<open>inspect (Suc 0) throwing_getter_heap (Ref 1) fresh False True = Inl (Thrown (Str ''boom''))
   \<and> formatString (Suc 0) throwing_getter_heap True [Ref 1] = Inr ''[Unknown]''
   \<and> inspect (Suc 0) getter_heap (Ref 1) fresh False True =
        Inr (wrapInSpanRaw OBJECT
               (COLLAPSED_ARROW @ '' {x: '' @ FUNCTION_SIGNATURE_PREFIX @ '' [Getter]}''),
             \<lparr>visited = {1}, trace = [Walk 1]\<rparr>)\<close>
  using getter_of_constructor_is_invoked [where d = 0 and h = getter_heap and a = 1
      and key = \<open>''x''\<close> and g = \<open>Inl (Thrown (Str ''boom''))\<close> and st = fresh and inObject = False]
  by (simp add: getter_heap_def heap_defs escapeChar_def)

section \<open>Cycles and the visited set\<close>

text \<open>
  Claim C4: for the object \<^verbatim>\<open>a\<close> whose one property \<^verbatim>\<open>self\<close> is \<^verbatim>\<open>a\<close> itself, wherever it
  lies in the heap, \<^verbatim>\<open>inspect\<close> returns with one stack frame or more, in both modes; the
  nested occurrence is rendered as \<^verbatim>\<open>[Circular]\<close>, and the object is walked once.
\<close>

theorem cycle_terminates:
  assumes \<open>kind (h a) = PlainObject\<close> and \<open>get_trap (h a) = None\<close>
    and \<open>own (h a) = [(''self'', Data (Ref a) True)]\<close>
    and \<open>map_of (inherited (h a)) ''constructor'' = Some (Data Object_ctor False)\<close>
  shows \<open>inspect (Suc d) h (Ref a) st inObject collapsed =
     Inr (wrapInSpanRaw OBJECT
            (if collapsed then COLLAPSED_ARROW @ '' {self: [Circular]}''
             else EXPANDED_ARROW @ '' {<br />self: [Circular]}''),
          st\<lparr>visited := insert a (visited st), trace := trace st @ [Walk a]\<rparr>)\<close>
  using assms by (simp add: inspect_defs escapeChar_def)

theorem cycle_terminates_witness:
  \<open>inspect (Suc 0) cyclic_heap (Ref 1) fresh False True =
     Inr (wrapInSpanRaw OBJECT (COLLAPSED_ARROW @ '' {self: [Circular]}''),
          \<lparr>visited = {1}, trace = [Walk 1]\<rparr>)\<close>
  using cycle_terminates [of cyclic_heap 1 0 fresh False True]
  by (simp add: cyclic_heap_def heap_defs)

text \<open>A set that holds itself: no stack is deep enough.\<close>

lemma set_in_itself: \<open>inspect n set_heap (Ref 3) st inObject collapsed = Inl OutOfStack\<close>
proof (induction n arbitrary: st inObject collapsed)
  case 0
  then show ?case by simp
next
  case (Suc n)
  then show ?case
    by (cases n) (simp_all add: inspect_defs set_heap_def heap_defs)
qed

text \<open>
  Claim C5 fails where a visited object is an element of a Set (or of a Map): the
  branches of \<^verbatim>\<open>inspect\<close> for sets and maps call \<^verbatim>\<open>self\<close> on each element and do not look
  at the visited set, which only the loop of \<^verbatim>\<open>recursiveInspect\<close> does. For
  \<^verbatim>\<open>o = {}; o.s = new Set([o])\<close> the object \<^verbatim>\<open>o\<close> is in the visited set when the set is
  rendered, and it is walked a second time (the trace holds \<open>Walk 1\<close> twice) and rendered
  in full inside the set; \<^verbatim>\<open>[Circular]\<close> stands for the set, one level further down. A set
  that contains itself is re-entered until the stack is exhausted.
\<close>

theorem visited_object_walked_again_in_set:
  \<open>inspect (Suc (Suc (Suc d))) set_heap (Ref 1) fresh False True =
     Inr (wrapInSpanRaw OBJECT (COLLAPSED_ARROW @ '' {s: '' @
            wrapInSpanRaw SET (''Set('' @ num ''1'' @ '') {'' @
              wrapInSpanRaw OBJECT (COLLAPSED_ARROW @ '' {s: [Circular]}'') @ ''}'') @ ''}''),
          \<lparr>visited = {1, 2}, trace = [Walk 1, Walk 1]\<rparr>)
   \<and> inspect n set_heap (Ref 3) st inObject collapsed = Inl OutOfStack\<close>
proof -
  have \<open>inspect (Suc (Suc (Suc d))) set_heap (Ref 1) fresh False True =
     Inr (wrapInSpanRaw OBJECT (COLLAPSED_ARROW @ '' {s: '' @
            wrapInSpanRaw SET (''Set('' @ num ''1'' @ '') {'' @
              wrapInSpanRaw OBJECT (COLLAPSED_ARROW @ '' {s: [Circular]}'') @ ''}'') @ ''}''),
          \<lparr>visited = {1, 2}, trace = [Walk 1, Walk 1]\<rparr>)\<close>
    by (auto simp add: inspect_defs escapeChar_def set_heap_def heap_defs num_def)
  then show ?thesis
    using set_in_itself by simp
qed

theorem visited_object_walked_again_in_set_witness:
  \<open>inspect (Suc (Suc (Suc 0))) set_heap (Ref 1) fresh False True =
     Inr (wrapInSpanRaw OBJECT (COLLAPSED_ARROW @ '' {s: '' @
            wrapInSpanRaw SET (''Set('' @ num ''1'' @ '') {'' @
              wrapInSpanRaw OBJECT (COLLAPSED_ARROW @ '' {s: [Circular]}'') @ ''}'') @ ''}''),
          \<lparr>visited = {1, 2}, trace = [Walk 1, Walk 1]\<rparr>)
   \<and> inspect (Suc (Suc (Suc (Suc 0)))) set_heap (Ref 3) fresh False True = Inl OutOfStack\<close>
  by (rule visited_object_walked_again_in_set
      [where d = 0 and n = \<open>Suc (Suc (Suc (Suc 0)))\<close> and st = fresh and inObject = False
        and collapsed = True])

section \<open>The cap of the collapsed view\<close>

text \<open>With five own properties or more, the collapsed loop renders four and stops.\<close>

lemma collapsed_cap_general:
  assumes \<open>4 < length keys\<close>
  shows \<open>inspectProperties self h obj isArray keys 0 [] st True =
    (case inspectProperties self h obj isArray (take 4 keys) 0 [] st True of
       Inl e \<Rightarrow> Inl e
     | Inr (str, st') \<Rightarrow> Inr (str @ '', '' @ COLLAPSED_CHAR, st'))\<close>
proof -
  obtain k1 k2 k3 k4 k5 rest where keys: "keys = k1 # k2 # k3 # k4 # k5 # rest"
    using assms
    by (cases keys; simp; rename_tac k1 ks1; case_tac ks1; simp; rename_tac k2 ks2;
        case_tac ks2; simp; rename_tac k3 ks3; case_tac ks3; simp; rename_tac k4 ks4;
        case_tac ks4; simp)
  show ?thesis unfolding keys
    by (simp add: MAX_COLLAPSED_PROPERTIES_def split: sum.splits prod.splits)
qed

text \<open>
  Claim C6 fails in collapsed mode: the loop counts a property before it tests
  \<^verbatim>\<open>count >= MAX_COLLAPSED_PROPERTIES\<close>, so the fifth property already meets the cap, and
  the object with the ten properties \<^verbatim>\<open>a\<close> to \<^verbatim>\<open>j\<close> is rendered with four of them
  and the marker. Expanded, all ten are there, each after a line break. The last part
  says the same of every object with five keys or more.
\<close>

theorem collapsed_cap_shows_four:
  \<open>inspect (Suc (Suc d)) ten_heap (Ref 1) fresh False True =
     Inr (wrapInSpanRaw OBJECT (COLLAPSED_ARROW @ '' {a: '' @ num ''1'' @ '', b: '' @ num ''2''
            @ '', c: '' @ num ''3'' @ '', d: '' @ num ''4'' @ '', '' @ COLLAPSED_CHAR @ ''}''),
          \<lparr>visited = {1}, trace = [Walk 1]\<rparr>)
   \<and> inspect (Suc (Suc d)) ten_heap (Ref 1) fresh False False =
     Inr (wrapInSpanRaw OBJECT (EXPANDED_ARROW @ '' {<br />a: '' @ num ''1'' @ '', <br />b: ''
            @ num ''2'' @ '', <br />c: '' @ num ''3'' @ '', <br />d: '' @ num ''4''
            @ '', <br />e: '' @ num ''5'' @ '', <br />f: '' @ num ''6'' @ '', <br />g: ''
            @ num ''7'' @ '', <br />h: '' @ num ''8'' @ '', <br />i: '' @ num ''9''
            @ '', <br />j: '' @ num ''10'' @ ''}''),
          \<lparr>visited = {1}, trace = [Walk 1]\<rparr>)
   \<and> (4 < length keys \<longrightarrow>
        inspectProperties self h obj isArray keys 0 [] st True =
          (case inspectProperties self h obj isArray (take 4 keys) 0 [] st True of
             Inl e \<Rightarrow> Inl e
           | Inr (str, st') \<Rightarrow> Inr (str @ '', '' @ COLLAPSED_CHAR, st')))\<close>
proof -
  have ten: \<open>inspect (Suc (Suc d)) ten_heap (Ref 1) fresh False True =
     Inr (wrapInSpanRaw OBJECT (COLLAPSED_ARROW @ '' {a: '' @ num ''1'' @ '', b: '' @ num ''2''
            @ '', c: '' @ num ''3'' @ '', d: '' @ num ''4'' @ '', '' @ COLLAPSED_CHAR @ ''}''),
          \<lparr>visited = {1}, trace = [Walk 1]\<rparr>)
   \<and> inspect (Suc (Suc d)) ten_heap (Ref 1) fresh False False =
     Inr (wrapInSpanRaw OBJECT (EXPANDED_ARROW @ '' {<br />a: '' @ num ''1'' @ '', <br />b: ''
            @ num ''2'' @ '', <br />c: '' @ num ''3'' @ '', <br />d: '' @ num ''4''
            @ '', <br />e: '' @ num ''5'' @ '', <br />f: '' @ num ''6'' @ '', <br />g: ''
            @ num ''7'' @ '', <br />h: '' @ num ''8'' @ '', <br />i: '' @ num ''9''
            @ '', <br />j: '' @ num ''10'' @ ''}''),
          \<lparr>visited = {1}, trace = [Walk 1]\<rparr>)\<close>
    by (simp add: inspectCall_plain [where e = False] inspectProperty_primitive inspectCall_Num
        MAX_COLLAPSED_PROPERTIES_def escapeChar_def ten_heap_def num_def heap_defs)
  show ?thesis
    using ten collapsed_cap_general by blast
qed

theorem collapsed_cap_shows_four_witness:
  \<open>inspect (Suc (Suc 0)) ten_heap (Ref 1) fresh False True =
     Inr (wrapInSpanRaw OBJECT (COLLAPSED_ARROW @ '' {a: '' @ num ''1'' @ '', b: '' @ num ''2''
            @ '', c: '' @ num ''3'' @ '', d: '' @ num ''4'' @ '', '' @ COLLAPSED_CHAR @ ''}''),
          \<lparr>visited = {1}, trace = [Walk 1]\<rparr>)
   \<and> 4 < length [''a'', ''b'', ''c'', ''d'', ''e'']
   \<and> inspectProperties (inspect (Suc 0) ten_heap) ten_heap (Ref 1) False
        [''a'', ''b'', ''c'', ''d'', ''e''] 0 [] fresh True =
      Inr (''a: '' @ num ''1'' @ '', b: '' @ num ''2'' @ '', c: '' @ num ''3'' @ '', d: ''
             @ num ''4'' @ '', '' @ COLLAPSED_CHAR, fresh)\<close>
  using collapsed_cap_shows_four [where d = 0 and self = \<open>inspect (Suc 0) ten_heap\<close>
      and h = ten_heap and obj = \<open>Ref 1\<close> and isArray = False
      and keys = \<open>[''a'', ''b'', ''c'', ''d'', ''e'']\<close> and st = fresh]
  by (simp add: inspectProperty_primitive inspectCall_Num MAX_COLLAPSED_PROPERTIES_def
      escapeChar_def ten_heap_def num_def heap_defs)

section \<open>The markup of the inspector\<close>

text \<open>
  Whatever the value and the heap, a rendering that \<^verbatim>\<open>inspect\<close> returns is markup of the
  engine: each \<^verbatim>\<open><\<close> in it opens a tag that the engine wrote. The proof follows the
  code: the escaped strings, the wrappers, the loop over the properties, the elements of
  sets and maps, and the calls of \<^verbatim>\<open>inspect\<close> by depth.
\<close>

lemma engine_markup_text: \<open>CHR ''<'' \<notin> set u \<Longrightarrow> engine_markup s \<Longrightarrow> engine_markup (u @ s)\<close>
  by (induction u) (auto intro: engine_markup.plain)

lemma engine_markup_literal: \<open>CHR ''<'' \<notin> set u \<Longrightarrow> engine_markup u\<close>
  using engine_markup_text [of u "[]"] by (simp add: engine_markup.empty)

lemma engine_markup_append:
  assumes \<open>engine_markup a\<close> and \<open>engine_markup b\<close>
  shows \<open>engine_markup (a @ b)\<close>
  using assms(1)
proof induction
  case empty
  then show ?case using assms(2) by simp
next
  case (plain c s)
  then show ?case by (simp add: engine_markup.plain)
next
  case (br s)
  then show ?case using engine_markup.br [of \<open>s @ b\<close>] by simp
next
  case (span_close s)
  then show ?case using engine_markup.span_close [of \<open>s @ b\<close>] by simp
next
  case (span_open s cls)
  then show ?case using engine_markup.span_open [of \<open>s @ b\<close> cls] by simp
qed

lemma engine_markup_escapeChar: \<open>engine_markup s \<Longrightarrow> engine_markup (escapeChar c @ s)\<close>
  using engine_markup.br [of s] engine_markup_text [of \<open>''&lt;''\<close> s]
    engine_markup_text [of \<open>''&gt;''\<close> s] engine_markup_text [of \<open>''&nbsp;''\<close> s]
    engine_markup.plain [of c s]
  by (simp add: escapeChar_def)

lemma engine_markup_escapeString: \<open>engine_markup (escapeString s)\<close>
  by (induction s) (simp_all add: engine_markup.empty engine_markup_escapeChar)

lemma engine_markup_wrapInSpanRaw:
  assumes \<open>engine_markup s\<close>
  shows \<open>engine_markup (wrapInSpanRaw cls s)\<close>
proof -
  have \<open>engine_markup (s @ ''</span>'')\<close>
    using engine_markup_append [OF assms engine_markup.span_close [OF engine_markup.empty]] by simp
  then show ?thesis
    unfolding wrapInSpanRaw_def by (rule engine_markup.span_open)
qed

lemma class_no_angle: \<open>CHR ''<'' \<notin> set (ClassNames cls)\<close>
  by (cases cls) simp_all

lemma engine_markup_no_b:
  assumes \<open>engine_markup s\<close>
  shows \<open>\<not> contains ''<b>'' s\<close>
  using assms
proof induction
  case empty
  then show ?case by simp
next
  case (plain c s)
  then show ?case by (simp add: prefix_def)
next
  case (br s)
  then show ?case by (simp add: prefix_def)
next
  case (span_close s)
  then show ?case by (simp add: prefix_def)
next
  case (span_open s cls)
  have \<open>\<not> contains ''<b>'' (u @ ''">'' @ s)\<close> if \<open>CHR ''<'' \<notin> set u\<close> for u
    using that span_open.IH by (induction u) (auto simp add: prefix_def)
  then show ?case using class_no_angle [of cls] by (simp add: prefix_def)
qed

lemmas markup_intros = engine_markup.empty engine_markup.plain engine_markup.br [simplified]
  engine_markup_append engine_markup_escapeString engine_markup_wrapInSpanRaw

lemma FUNCTION_SIGNATURE_PREFIX_markup: \<open>engine_markup FUNCTION_SIGNATURE_PREFIX\<close>
  unfolding FUNCTION_SIGNATURE_PREFIX_def by (simp add: markup_intros)

lemma ARROW_markup: \<open>engine_markup COLLAPSED_ARROW\<close> \<open>engine_markup EXPANDED_ARROW\<close>
  unfolding COLLAPSED_ARROW_def EXPANDED_ARROW_def COLLAPSED_ARROW_RAW_def EXPANDED_ARROW_RAW_def
  by (simp_all add: markup_intros)

lemma COLLAPSED_CHAR_markup: \<open>engine_markup COLLAPSED_CHAR\<close>
  unfolding COLLAPSED_CHAR_def by (simp add: markup_intros)

lemma inspectProperty_markup:
  assumes \<open>safe_inspector self\<close> and \<open>engine_markup str\<close>
    and \<open>inspectProperty self h obj isArray key str st collapsed = Inr (out, st')\<close>
  shows \<open>engine_markup out\<close>
proof -
  have self: \<open>engine_markup r\<close> if \<open>self v s i c = Inr (r, s')\<close> for v s i c r s'
    using assms(1) that unfolding safe_inspector_def by blast
  show ?thesis
    using assms(2,3) self
    by (auto simp add: inspectProperty_def Let_def markup_intros FUNCTION_SIGNATURE_PREFIX_markup
        simp del: escapeString.simps js_get.simps
        split: if_splits sum.splits prod.splits option.splits)
qed

lemma safe_inspectorD:
  \<open>safe_inspector self \<Longrightarrow> self v st inObject collapsed = Inr (out, st') \<Longrightarrow> engine_markup out\<close>
  unfolding safe_inspector_def by blast

lemma inspectProperties_markup:
  assumes \<open>safe_inspector self\<close>
  shows \<open>engine_markup str \<Longrightarrow>
     inspectProperties self h obj isArray keys count str st collapsed = Inr (out, st') \<Longrightarrow>
     engine_markup out\<close>
proof (induction keys arbitrary: count str st)
  case Nil
  then show ?case by simp
next
  case (Cons key keys)
  show ?case
  proof (cases "collapsed \<and> count + 1 \<ge> MAX_COLLAPSED_PROPERTIES")
    case True
    then show ?thesis
      using Cons.prems by (auto simp add: markup_intros COLLAPSED_CHAR_markup)
  next
    case False
    then obtain str1 st1 where
      step: \<open>inspectProperty self h obj isArray key str st collapsed = Inr (str1, st1)\<close>
      and rest: \<open>inspectProperties self h obj isArray keys (count + 1) str1 st1 collapsed = Inr (out, st')\<close>
      using Cons.prems(2) by (auto split: sum.splits prod.splits)
    have \<open>engine_markup str1\<close>
      using inspectProperty_markup [OF assms Cons.prems(1) step] .
    then show ?thesis
      using Cons.IH rest by blast
  qed
qed

lemma recursiveInspect_markup:
  assumes \<open>safe_inspector self\<close>
    and \<open>recursiveInspect self h obj st inObject collapsed = Inr (out, st')\<close>
  shows \<open>engine_markup out\<close>
proof (cases "is_loseObject h obj")
  case False
  then show ?thesis
    using assms safe_inspectorD [of self obj st inObject collapsed out st']
    unfolding recursiveInspect_def by simp
next
  case True
  then obtain str where
    \<open>inspectProperties self h obj (is_array h obj) (map fst (own_props h obj)) 0 []
        (walked obj st) collapsed = Inr (str, st')\<close>
    and out: \<open>out = (if \<not> is_array h obj then ''{'' @ str @ ''}'' else ''['' @ str @ '']'')\<close>
    using assms(2) unfolding recursiveInspect_def
    by (auto simp add: Let_def split: sum.splits prod.splits)
  then have \<open>engine_markup str\<close>
    using inspectProperties_markup [OF assms(1) engine_markup.empty] by blast
  then show ?thesis
    unfolding out by (simp add: markup_intros)
qed

lemma join_markup:
  \<open>engine_markup sep \<Longrightarrow> list_all engine_markup parts \<Longrightarrow> engine_markup (join sep parts)\<close>
  by (induction sep parts rule: join.induct) (auto simp add: markup_intros)

lemma inspectKeys_markup:
  assumes \<open>safe_inspector self\<close>
  shows \<open>inspectKeys self ks st = Inr (parts, st') \<Longrightarrow> list_all engine_markup parts\<close>
proof (induction ks arbitrary: st parts)
  case Nil
  then show ?case by simp
next
  case (Cons k ks)
  then obtain s st1 ss where \<open>self k st False True = Inr (s, st1)\<close>
    and \<open>inspectKeys self ks st1 = Inr (ss, st')\<close> and \<open>parts = s # ss\<close>
    by (auto split: sum.splits prod.splits)
  then show ?case
    using Cons.IH safe_inspectorD [OF assms] by auto
qed

lemma inspectEntries_markup:
  assumes \<open>safe_inspector self\<close>
  shows \<open>inspectEntries self es st = Inr (parts, st') \<Longrightarrow> list_all engine_markup parts\<close>
proof (induction es arbitrary: st parts)
  case Nil
  then show ?case by simp
next
  case (Cons e es)
  obtain k v where e: \<open>e = (k, v)\<close> by (cases e)
  from Cons.prems obtain kHtml vHtml st1 st2 ss where \<open>self k st True True = Inr (kHtml, st1)\<close>
    and \<open>self v st1 True True = Inr (vHtml, st2)\<close>
    and \<open>inspectEntries self es st2 = Inr (ss, st')\<close>
    and \<open>parts = (kHtml @ '' => '' @ vHtml) # ss\<close>
    unfolding e by (auto split: sum.splits prod.splits)
  then show ?case
    using Cons.IH safe_inspectorD [OF assms] by (auto simp add: markup_intros)
qed

lemma escapeHtml_markup: \<open>escapeHtml h v = Inr out \<Longrightarrow> engine_markup out\<close>
  by (auto simp add: escapeHtml_def markup_intros split: sum.splits)

lemma wrapInSpan_markup: \<open>wrapInSpan h cls v = Inr out \<Longrightarrow> engine_markup out\<close>
  by (auto simp add: wrapInSpan_def markup_intros split: sum.splits dest: escapeHtml_markup)

lemma ret_markup: \<open>ret st (wrapInSpan h cls v) = Inr (out, st') \<Longrightarrow> engine_markup out\<close>
  by (auto simp add: ret_def wrapInSpan_markup split: sum.splits)

lemma inspectCall_markup:
  assumes \<open>safe_inspector self\<close>
    and \<open>inspectCall self h v st inObject collapsed = Inr (out, st')\<close>
  shows \<open>engine_markup out\<close>
proof -
  note D = safe_inspectorD [OF assms(1)]
  note R = recursiveInspect_markup [OF assms(1)]
  note K = inspectKeys_markup [OF assms(1)]
  note E = inspectEntries_markup [OF assms(1)]
  show ?thesis
    using assms(2)
    unfolding inspectCall_def Let_def
    by (auto simp add: markup_intros join_markup ARROW_markup FUNCTION_SIGNATURE_PREFIX_markup
        simp del: escapeString.simps js_get.simps
        split: if_splits sum.splits prod.splits
        dest!: ret_markup wrapInSpan_markup D R K E)
qed


lemma inspect_markup:
  \<open>inspect d h v st inObject collapsed = Inr (out, st') \<Longrightarrow> engine_markup out\<close>
proof (induction d arbitrary: v st inObject collapsed out st')
  case 0
  then show ?case by simp
next
  case (Suc d)
  have \<open>safe_inspector (inspect d h)\<close>
    unfolding safe_inspector_def using Suc.IH by blast
  then show ?case
    using Suc.prems inspectCall_markup by simp
qed

section \<open>The size of a set or a map\<close>

lemma inspectCall_set:
  assumes \<open>kind (h a) = SetLike\<close>
    and \<open>js_get h (Ref a) ''size'' st = Inr (sizeValue, st1)\<close>
    and \<open>self sizeValue st1 True True = Inr (sizeHtml, st2)\<close>
    and \<open>keys_list (h a) = Inr ks\<close>
    and \<open>inspectKeys self ks st2 = Inr (parts, st3)\<close>
  shows \<open>inspectCall self h (Ref a) st inObject collapsed =
     Inr (wrapInSpanRaw SET (''Set('' @ sizeHtml @ '') {'' @ join '', '' parts @ ''}''), st3)\<close>
  using assms by (simp add: inspectCall_def is_defs del: js_get.simps)

lemma inspectCall_map:
  assumes \<open>kind (h a) = MapLike\<close>
    and \<open>js_get h (Ref a) ''size'' st = Inr (sizeValue, st1)\<close>
    and \<open>self sizeValue st1 True True = Inr (sizeHtml, st2)\<close>
    and \<open>entries_list (h a) = Inr es\<close>
    and \<open>inspectEntries self es st2 = Inr (parts, st3)\<close>
  shows \<open>inspectCall self h (Ref a) st inObject collapsed =
     Inr (wrapInSpanRaw MAP (''Map('' @ sizeHtml @ '') {'' @ join '', '' parts @ ''}''), st3)\<close>
  using assms by (simp add: inspectCall_def is_defs del: js_get.simps)

text \<open>
  Claim C8: whatever \<^verbatim>\<open>value.size\<close> gives for a Set-like or a Map-like value, the prefix
  holds the inspector's rendering of it (made as for a nested value), followed by the
  renderings of the elements. When \<^verbatim>\<open>size\<close> gives a string, that rendering is the
  string quoted, trimmed and escaped, and the output of an empty Set-like object does
  not contain \<^verbatim>\<open><b>\<close>, whatever the string. And whatever the value, its size and its
  elements, a rendering that \<^verbatim>\<open>inspect\<close> returns is markup of the engine and contains no
  \<^verbatim>\<open><b>\<close>.
\<close>

theorem size_is_inspected:
  \<open>(kind (h a) = SetLike \<and> js_get h (Ref a) ''size'' st = Inr (sizeValue, st')
      \<and> inspect d h sizeValue st' True True = Inr (sizeHtml, st'')
      \<and> keys_list (h a) = Inr ks \<and> inspectKeys (inspect d h) ks st'' = Inr (parts, st''')
     \<longrightarrow> inspect (Suc d) h (Ref a) st inObject collapsed =
          Inr (wrapInSpanRaw SET (''Set('' @ sizeHtml @ '') {'' @ join '', '' parts @ ''}''), st'''))
   \<and> (kind (h a) = MapLike \<and> js_get h (Ref a) ''size'' st = Inr (sizeValue, st')
      \<and> inspect d h sizeValue st' True True = Inr (sizeHtml, st'')
      \<and> entries_list (h a) = Inr es \<and> inspectEntries (inspect d h) es st'' = Inr (parts, st''')
     \<longrightarrow> inspect (Suc d) h (Ref a) st inObject collapsed =
          Inr (wrapInSpanRaw MAP (''Map('' @ sizeHtml @ '') {'' @ join '', '' parts @ ''}''), st'''))
   \<and> (kind (h a) = SetLike \<and> js_get h (Ref a) ''size'' st = Inr (Str s, st')
      \<and> keys_list (h a) = Inr []
     \<longrightarrow> inspect (Suc (Suc d)) h (Ref a) st inObject collapsed =
          Inr (wrapInSpanRaw SET (''Set('' @
                 wrapInSpanRaw STRING_OBJECT (escapeString (''"'' @ trimString s 100 @ ''"''))
                 @ '') {}''), st')
        \<and> \<not> contains ''<b>'' (wrapInSpanRaw SET (''Set('' @
                 wrapInSpanRaw STRING_OBJECT (escapeString (''"'' @ trimString s 100 @ ''"''))
                 @ '') {}'')))
   \<and> (inspect n h v sa i c = Inr (out, sb) \<longrightarrow> engine_markup out \<and> \<not> contains ''<b>'' out)\<close>
proof -
  have general: \<open>engine_markup out \<and> \<not> contains ''<b>'' out\<close>
    if \<open>inspect n h v sa i c = Inr (out, sb)\<close> for n v sa i c out sb
    using inspect_markup [OF that] engine_markup_no_b by blast
  have sized: \<open>inspect (Suc (Suc d)) h (Ref a) st inObject collapsed =
          Inr (wrapInSpanRaw SET (''Set('' @
                 wrapInSpanRaw STRING_OBJECT (escapeString (''"'' @ trimString s 100 @ ''"''))
                 @ '') {}''), st')\<close>
    if \<open>kind (h a) = SetLike\<close> \<open>js_get h (Ref a) ''size'' st = Inr (Str s, st')\<close>
      \<open>keys_list (h a) = Inr []\<close>
    using that by (simp add: inspectCall_set inspectCall_Str del: js_get.simps)
  have nob: \<open>\<not> contains ''<b>'' (wrapInSpanRaw SET (''Set('' @
                 wrapInSpanRaw STRING_OBJECT (escapeString (''"'' @ trimString s 100 @ ''"''))
                 @ '') {}''))\<close>
    if \<open>kind (h a) = SetLike\<close> \<open>js_get h (Ref a) ''size'' st = Inr (Str s, st')\<close>
      \<open>keys_list (h a) = Inr []\<close>
    using general [OF sized [OF that]] by (rule conjunct2)
  have set_like: \<open>inspect (Suc d) h (Ref a) st inObject collapsed =
          Inr (wrapInSpanRaw SET (''Set('' @ sizeHtml @ '') {'' @ join '', '' parts @ ''}''), st''')\<close>
    if \<open>kind (h a) = SetLike\<close> \<open>js_get h (Ref a) ''size'' st = Inr (sizeValue, st')\<close>
      \<open>inspect d h sizeValue st' True True = Inr (sizeHtml, st'')\<close>
      \<open>keys_list (h a) = Inr ks\<close> \<open>inspectKeys (inspect d h) ks st'' = Inr (parts, st''')\<close>
    using inspectCall_set [OF that] by simp
  have map_like: \<open>inspect (Suc d) h (Ref a) st inObject collapsed =
          Inr (wrapInSpanRaw MAP (''Map('' @ sizeHtml @ '') {'' @ join '', '' parts @ ''}''), st''')\<close>
    if \<open>kind (h a) = MapLike\<close> \<open>js_get h (Ref a) ''size'' st = Inr (sizeValue, st')\<close>
      \<open>inspect d h sizeValue st' True True = Inr (sizeHtml, st'')\<close>
      \<open>entries_list (h a) = Inr es\<close> \<open>inspectEntries (inspect d h) es st'' = Inr (parts, st''')\<close>
    using inspectCall_map [OF that] by simp
  show ?thesis
    using set_like map_like sized nob general by blast
qed

theorem size_is_inspected_witness:
  \<open>inspect (Suc (Suc 0)) size_heap (Ref 1) fresh False True =
      Inr (''<span class="ec-object">Set(<span class="ec-regexp">"&lt;b&gt;x&lt;/b&gt;"</span>) {}</span>'',
          \<lparr>visited = {}, trace = [Invoke 1 ''size'']\<rparr>)
   \<and> \<not> contains ''<b>''
        ''<span class="ec-object">Set(<span class="ec-regexp">"&lt;b&gt;x&lt;/b&gt;"</span>) {}</span>''
   \<and> inspect (Suc (Suc 0)) size_heap (Ref 2) fresh False True =
      Inr (''<span class="ec-object">Map(<span class="ec-regexp">"&lt;b&gt;x&lt;/b&gt;"</span>) {}</span>'',
          \<lparr>visited = {}, trace = [Invoke 2 ''size'']\<rparr>)
   \<and> engine_markup
        ''<span class="ec-object">Map(<span class="ec-regexp">"&lt;b&gt;x&lt;/b&gt;"</span>) {}</span>''\<close>
  using size_is_inspected [where h = size_heap and a = 1 and st = fresh
       and sizeValue = \<open>Str ''<b>x</b>''\<close> and st' = \<open>\<lparr>visited = {}, trace = [Invoke 1 ''size'']\<rparr>\<close>
       and d = \<open>Suc 0\<close> and sizeHtml = \<open>''<span class="ec-regexp">"&lt;b&gt;x&lt;/b&gt;"</span>''\<close>
       and st'' = \<open>\<lparr>visited = {}, trace = [Invoke 1 ''size'']\<rparr>\<close> and ks = \<open>[]\<close> and parts = \<open>[]\<close>
       and st''' = \<open>\<lparr>visited = {}, trace = [Invoke 1 ''size'']\<rparr>\<close> and inObject = False
       and collapsed = True and es = \<open>[]\<close> and s = \<open>''<b>x</b>''\<close>]
    size_is_inspected [where h = size_heap and a = 2 and st = fresh
       and sizeValue = \<open>Str ''<b>x</b>''\<close> and st' = \<open>\<lparr>visited = {}, trace = [Invoke 2 ''size'']\<rparr>\<close>
       and d = \<open>Suc 0\<close> and sizeHtml = \<open>''<span class="ec-regexp">"&lt;b&gt;x&lt;/b&gt;"</span>''\<close>
       and st'' = \<open>\<lparr>visited = {}, trace = [Invoke 2 ''size'']\<rparr>\<close> and ks = \<open>[]\<close> and parts = \<open>[]\<close>
       and st''' = \<open>\<lparr>visited = {}, trace = [Invoke 2 ''size'']\<rparr>\<close> and inObject = False
       and collapsed = True and es = \<open>[]\<close> and s = \<open>''<b>x</b>''\<close>
       and n = \<open>Suc (Suc 0)\<close> and v = \<open>Ref 2\<close> and sa = fresh and i = False and c = True
       and out = \<open>''<span class="ec-object">Map(<span class="ec-regexp">"&lt;b&gt;x&lt;/b&gt;"</span>) {}</span>''\<close>
       and sb = \<open>\<lparr>visited = {}, trace = [Invoke 2 ''size'']\<rparr>\<close>]
  by (simp add: size_heap_def heap_defs inspectCall_Str wrapInSpanRaw_def
      escapeChar_def trimString_def)

section \<open>The formatter\<close>

lemma percent_no_placeholder [simp]: \<open>CHR ''%'' \<notin> placeholders\<close>
  by (simp add: placeholders_def)

lemma formatString_isolates_faults:
  \<open>\<not> is_string (data_at data 0) \<Longrightarrow>
     formatString d h collapsed data = Inr (join '' '' (map (inspectParam d h collapsed) data))\<close>
  by (cases data) (auto simp add: formatString_def data_at_def split: jsval.splits)

text \<open>
  Claim C3 holds of the arguments that the \<^verbatim>\<open>map\<close> of \<^verbatim>\<open>_formatString\<close> inspects: the
  throwing proxy followed by \<^verbatim>\<open>"ok"\<close> gives \<^verbatim>\<open>[Unknown]\<close> and the rendering of \<^verbatim>\<open>"ok"\<close>,
  and when the first argument is not a string the formatter never raises. It fails for
  the template: the loop that substitutes the placeholders converts an argument to a
  string outside the \<^verbatim>\<open>try\<close>, so what the conversion raises (the proxy's trap, or the
  TypeError of a symbol) leaves \<^verbatim>\<open>_formatString\<close> and \<^verbatim>\<open>log\<close>.
\<close>

theorem template_conversion_escapes_the_catch:
  \<open>formatString (Suc d) proxy_heap True [Ref 1, Str ''ok''] =
      Inr ''[Unknown] <span class="ec-string">ok</span>''
   \<and> formatString (Suc d) proxy_heap True [Str ''%s'', Ref 1] = Inl (Thrown (Num 1))
   \<and> log (Suc d) proxy_heap [Str ''%s'', Ref 1] c = Inl (Thrown (Num 1))
   \<and> log (Suc d) proxy_heap [Str ''%s'', Symbol ''id''] c = Inl TypeError
   \<and> (\<not> is_string (data_at data 0) \<longrightarrow>
        formatString n h collapsed data = Inr (join '' '' (map (inspectParam n h collapsed) data)))\<close>
proof -
  have \<open>formatString (Suc d) proxy_heap True [Ref 1, Str ''ok''] =
      Inr ''[Unknown] <span class="ec-string">ok</span>''
   \<and> formatString (Suc d) proxy_heap True [Str ''%s'', Ref 1] = Inl (Thrown (Num 1))
   \<and> log (Suc d) proxy_heap [Str ''%s'', Ref 1] c = Inl (Thrown (Num 1))
   \<and> log (Suc d) proxy_heap [Str ''%s'', Symbol ''id''] c = Inl TypeError\<close>
    by (simp add: formatString_def inspectParam_def inspect_defs proxy_heap_def heap_defs
        log_def data_at_def placeholders_def wrapInSpanRaw_def escapeChar_def)
  then show ?thesis
    using formatString_isolates_faults by blast
qed

theorem template_conversion_escapes_the_catch_witness:
  \<open>formatString (Suc 0) proxy_heap True [Ref 1, Str ''ok''] =
      Inr ''[Unknown] <span class="ec-string">ok</span>''
   \<and> formatString (Suc 0) proxy_heap True [Str ''%s'', Ref 1] = Inl (Thrown (Num 1))
   \<and> log (Suc 0) proxy_heap [Str ''%s'', Ref 1] console0 = Inl (Thrown (Num 1))
   \<and> log (Suc 0) proxy_heap [Str ''%s'', Symbol ''id''] console0 = Inl TypeError
   \<and> \<not> is_string (data_at [Ref 1, Str ''ok''] 0)\<close>
  using template_conversion_escapes_the_catch [where d = 0 and c = console0
      and data = \<open>[Ref 1, Str ''ok'']\<close> and n = \<open>Suc 0\<close> and h = proxy_heap and collapsed = True]
  by (simp add: data_at_def)

text \<open>A template without placeholders loses its \<^verbatim>\<open>%\<close> characters and nothing else.\<close>

lemma substitute_no_placeholder:
  assumes \<open>\<not> has_placeholder t\<close> and \<open>prev = Some CHR ''%'' \<longrightarrow> t = [] \<or> hd t \<notin> placeholders\<close>
  shows \<open>substitute h data prev idx res t = Inr (idx, res @ filter (\<lambda>c. c \<noteq> CHR ''%'') t)\<close>
  using assms
proof (induction t arbitrary: prev res)
  case Nil
  then show ?case by simp
next
  case (Cons c t)
  have np: \<open>\<not> has_placeholder t\<close>
    using Cons.prems(1) by (cases t) simp_all
  have nxt: \<open>Some c = Some CHR ''%'' \<longrightarrow> t = [] \<or> hd t \<notin> placeholders\<close>
    using Cons.prems(1) by (cases t) simp_all
  have notfirst: \<open>\<not> (c \<in> placeholders \<and> prev = Some CHR ''%'')\<close>
    using Cons.prems(2) by auto
  show ?case
    using notfirst Cons.IH [OF np nxt] by auto
qed

text \<open>Literal text is copied, when the character before it is not a \<^verbatim>\<open>%\<close>.\<close>

lemma substitute_literal:
  assumes \<open>CHR ''%'' \<notin> set s\<close> and \<open>prev \<noteq> Some CHR ''%''\<close>
  shows \<open>substitute h data prev idx res (s @ rest) =
           substitute h data (if s = [] then prev else Some (last s)) idx (res @ s) rest\<close>
  using assms
proof (induction s arbitrary: prev res)
  case Nil
  then show ?case by simp
next
  case (Cons c s)
  have \<open>substitute h data prev idx res ((c # s) @ rest) =
        substitute h data (Some c) idx (res @ [c]) (s @ rest)\<close>
    using Cons.prems by auto
  also have \<open>\<dots> = substitute h data (if s = [] then Some c else Some (last s)) idx
                     ((res @ [c]) @ s) rest\<close>
    using Cons.prems by (intro Cons.IH) auto
  finally show ?case by simp
qed

text \<open>
  The loop of the source against \<open>fill\<close>: with \<open>idx\<close> arguments consumed, the loop
  appends to \<open>res\<close> what \<open>fill\<close> makes of the arguments that are left.
\<close>

lemma substitute_tokens:
  assumes \<open>list_all well_formed toks\<close> and \<open>list_all truthy trailing\<close>
    and \<open>prev \<noteq> Some CHR ''%''\<close>
  shows \<open>(case substitute h (t0 # trailing) prev idx res (unparse toks) of
            Inl e \<Rightarrow> Inl e | Inr (i, r) \<Rightarrow> Inr r) =
         (case fill h toks (drop idx trailing) of Inl e \<Rightarrow> Inl e | Inr r \<Rightarrow> Inr (res @ r))\<close>
  using assms
proof (induction toks arbitrary: prev idx res)
  case Nil
  then show ?case by simp
next
  case (Cons t toks)
  have wf: \<open>list_all well_formed toks\<close>
    using Cons.prems(1) by simp
  show ?case
  proof (cases t)
    case (Lit s)
    have s: \<open>CHR ''%'' \<notin> set s\<close> using Cons.prems(1) Lit by simp
    have prev': \<open>(if s = [] then prev else Some (last s)) \<noteq> Some CHR ''%''\<close>
    proof (cases "s = []")
      case True
      then show ?thesis using Cons.prems(3) by simp
    next
      case False
      then have \<open>last s \<in> set s\<close> by simp
      then have \<open>last s \<noteq> CHR ''%''\<close> using s by metis
      then show ?thesis using False by simp
    qed
    have IH: \<open>(case substitute h (t0 # trailing) (if s = [] then prev else Some (last s)) idx
                  (res @ s) (unparse toks) of Inl e \<Rightarrow> Inl e | Inr (i, r) \<Rightarrow> Inr r) =
         (case fill h toks (drop idx trailing) of Inl e \<Rightarrow> Inl e | Inr r \<Rightarrow> Inr ((res @ s) @ r))\<close>
      using Cons.IH [OF wf Cons.prems(2) prev', of idx \<open>res @ s\<close>] .
    show ?thesis
      using IH
      by (cases "fill h toks (drop idx trailing)")
         (simp_all add: Lit substitute_literal [OF s Cons.prems(3)])
  next
    case (Spec c)
    have c: \<open>c \<in> placeholders\<close> using Cons.prems(1) Spec by simp
    then have c': \<open>c \<noteq> CHR ''%''\<close> by auto
    have IH: \<open>(case substitute h (t0 # trailing) (Some c) (Suc idx) res' (unparse toks) of
                  Inl e \<Rightarrow> Inl e | Inr (i, r) \<Rightarrow> Inr r) =
         (case fill h toks (drop (Suc idx) trailing) of Inl e \<Rightarrow> Inl e | Inr r \<Rightarrow> Inr (res' @ r))\<close>
      for res'
      using Cons.IH [OF wf Cons.prems(2), of \<open>Some c\<close> \<open>Suc idx\<close> res'] c' by simp
    show ?thesis
    proof (cases "idx < length trailing")
      case True
      then have d: \<open>drop idx trailing = trailing ! idx # drop (Suc idx) trailing\<close>
        by (simp add: Cons_nth_drop_Suc)
      have tr: \<open>truthy (trailing ! idx)\<close>
        using True Cons.prems(2) by (simp add: list_all_length)
      show ?thesis
      proof (cases "js_concat_string h (trailing ! idx)")
        case (Inl e)
        then show ?thesis using c tr True by (simp add: Spec d data_at_def)
      next
        case (Inr x)
        then show ?thesis
          using IH [of \<open>res @ x\<close>] c tr True
          by (cases "fill h toks (drop (Suc idx) trailing)") (simp_all add: Spec d data_at_def)
      qed
    next
      case False
      then show ?thesis
        using IH [of \<open>res @ [CHR ''%'', c]\<close>] c
        by (cases "fill h toks []") (simp_all add: Spec data_at_def)
    qed
  qed
qed

lemma join_Cons_ex: \<open>\<exists>rest. join sep (x # xs) = x @ rest\<close>
  by (cases xs) simp_all

text \<open>
  Claim C7, as the spec states it, fails at its own example. The placeholders take the
  string forms \<^verbatim>\<open>x\<close> and \<^verbatim>\<open>5\<close>, not the inspector's renderings (the rendering of 5 is a
  span of class \<^verbatim>\<open>ec-numeric\<close>), and the template is then rendered as one string; the
  two arguments that the placeholders consumed are appended all the same; and a
  placeholder whose argument is 0 stays as written, though the arguments have not run
  out.
\<close>

theorem placeholder_substitution_counterexample:
  \<open>formatString (Suc 0) heap0 True [Str ''%s is %d'', Str ''x'', Num 5] =
     Inr ''<span class="ec-string">x&nbsp;is&nbsp;5</span> <span class="ec-string">x</span> <span class="ec-numeric">5</span>''
   \<and> inspectParam (Suc 0) heap0 True (Num 5) = ''<span class="ec-numeric">5</span>''
   \<and> formatString (Suc 0) heap0 True [Str ''%d'', Num 0] =
     Inr ''<span class="ec-string">%d</span> <span class="ec-numeric">0</span>''\<close>
  by (simp add: formatString_def inspectParam_def inspectCall_Str inspectCall_Num data_at_def
      placeholders_def wrapInSpanRaw_def escapeChar_def heap_defs)

text \<open>
  Claim C7, amended: for a template made of literal text and recognized placeholders, and
  trailing arguments that are all truthy, the output starts with the inspector's
  rendering of one string: the template in which each placeholder, from left to right,
  has been replaced by the string form of the next trailing argument, or left as written
  once the arguments have run out (this is \<open>fill\<close>). What follows the first fragment is
  left open.
\<close>

theorem placeholder_substitution:
  assumes \<open>list_all well_formed toks\<close> and \<open>list_all truthy args\<close>
    and \<open>fill h toks args = Inr res\<close>
  shows \<open>\<exists>rest. formatString (Suc d) h collapsed (Str (unparse toks) # args) =
            Inr (wrapInSpanRaw STRING (escapeString res) @ rest)\<close>
proof -
  have \<open>(case substitute h (Str (unparse toks) # args) None 0 [] (unparse toks) of
            Inl e \<Rightarrow> Inl e | Inr (i, r) \<Rightarrow> Inr r) = Inr res\<close>
    using substitute_tokens [OF assms(1,2), of None h \<open>Str (unparse toks)\<close> 0 \<open>[]\<close>] assms(3)
    by simp
  then obtain i where \<open>substitute h (Str (unparse toks) # args) None 0 [] (unparse toks) = Inr (i, res)\<close>
    by (auto split: sum.splits)
  then show ?thesis
    using join_Cons_ex [of \<open>'' ''\<close> \<open>wrapInSpanRaw STRING (escapeString res)\<close>
        \<open>map (inspectParam (Suc d) h collapsed) args\<close>]
    by (simp add: formatString_def inspectParam_def inspectCall_Str)
qed

theorem placeholder_substitution_witness:
  \<open>list_all well_formed [Spec CHR ''s'', Lit '' is '', Spec CHR ''d'']
   \<and> list_all truthy [Str ''x'', Num 5]
   \<and> fill heap0 [Spec CHR ''s'', Lit '' is '', Spec CHR ''d''] [Str ''x'', Num 5] = Inr ''x is 5''
   \<and> (\<exists>rest. formatString (Suc 0) heap0 True [Str ''%s is %d'', Str ''x'', Num 5] =
          Inr (''<span class="ec-string">x&nbsp;is&nbsp;5</span>'' @ rest))\<close>
  using placeholder_substitution [of \<open>[Spec CHR ''s'', Lit '' is '', Spec CHR ''d'']\<close>
      \<open>[Str ''x'', Num 5]\<close> heap0 \<open>''x is 5''\<close> 0 True]
  by (simp add: placeholders_def wrapInSpanRaw_def escapeChar_def)








section \<open>Timers\<close>







end
